theory Spec2Isabelle
  imports Main
begin

section \<open>The handler generator (handler/generator.go)\<close>

text \<open>
  The generator reads one Go package, looks up each requested function and, for each
  requested encoding package, appends an http handler rendered from the template
  \<open>handlerWrap\<close> to a buffer. Strings are byte strings. Calls into the Go tool chain and
  the operating system (the parser, the type checker, \<open>build.Import\<close>, \<open>format.Source\<close>,
  \<open>ioutil.WriteFile\<close>, \<open>strings.ToUpper\<close>) are parameters of the model, collected in the record
  \<open>env\<close>.
\<close>

subsection \<open>Syntax trees\<close>

text \<open>
  The parts of \<open>go/ast\<close> that \<open>genDecl\<close> reads. A type expression is an identifier
  (\<open>*ast.Ident\<close>), a selector \<open>X.Sel\<close> (\<open>*ast.SelectorExpr\<close>; in a type position the parser
  only builds selectors whose \<open>X\<close> is an identifier, so both parts are kept by name) or
  anything else (a pointer, slice, map, function type, ...), kept as the text that
  \<open>%v\<close> prints for it.

  A field is one entry of \<open>decl.Type.Params.List\<close>: the names that share one type
  (\<open>a, b X\<close> is one field with two names; an unnamed parameter is a field with none).
\<close>

datatype expr = Ident string | SelectorExpr string string | OtherExpr string

datatype field = Field (Names: "string list") (Type: expr)

text \<open>
  \<open>ast.Inspect\<close> walks the file depth first and \<open>genDecl\<close> answers \<open>true\<close> (descend) on every
  node that is not a \<open>*ast.FuncDecl\<close>. Function declarations only occur at the top level of
  a file (a function literal is a \<open>*ast.FuncLit\<close>), so the walk meets exactly the top-level
  function declarations, in source order, and does nothing at any other node. A file is
  therefore the list of its top-level declarations; \<open>GenDecl\<close> stands for an import, const,
  type or var declaration. A method is a \<open>FuncDecl\<close> too (\<open>genDecl\<close> never reads \<open>decl.Recv\<close>).
\<close>

datatype decl = FuncDecl (Name: string) (Params: "field list") | GenDecl

subsection \<open>Output of the process\<close>

text \<open>
  \<open>LogPrintf m\<close> is a call \<open>log.Printf\<close> producing message \<open>m\<close> on standard error,
  \<open>FmtPrintf m\<close> a call \<open>fmt.Printf\<close> producing \<open>m\<close> on standard output.
\<close>

datatype event = LogPrintf string | FmtPrintf string

subsection \<open>State of the analysis\<close>

text \<open>
  \<open>File\<close>, \<open>Package\<close> and \<open>Generator\<close> as the source declares them. The generator reaches
  its files through pointers and updates them in place; every file is allocated once by
  \<open>parsePackage\<close> and held in one slice, so the model keeps the files by value inside the
  package and returns the updated state. The back pointer \<open>File.pkg\<close> and the type
  checker's results (\<open>defs\<close>, \<open>typesPkg\<close>) are never read again and are left out. The field
  \<open>File.file\<close> is named \<open>astFile\<close> here.
\<close>

record File =
  astFile :: "decl list option"
  funcName :: string
  encodingPkgName :: string
  paramfullname :: string
  found :: bool

record Package =
  dir :: string
  name :: string
  files :: "File list"

record Generator =
  buf :: string
  pkg :: Package

subsection \<open>Formatting helpers of the Go library\<close>

definition tab :: string where
  "tab = [CHR 0x09]"

definition dq :: string where
  "dq = [CHR 0x22]"

text \<open>\<open>%d\<close> of a non-negative \<open>int\<close>.\<close>

fun string_of_nat :: "nat \<Rightarrow> string" where
  "string_of_nat n =
     (if n < 10 then [''0123456789'' ! n]
      else string_of_nat (n div 10) @ [''0123456789'' ! (n mod 10)])"

declare string_of_nat.simps [simp del]

text \<open>\<open>strings.Split(s, ",")\<close> and \<open>strings.Join(elems, sep)\<close>.\<close>

fun Split :: "string \<Rightarrow> char \<Rightarrow> string list" where
  "Split [] sep = [[]]"
| "Split (c # cs) sep =
     (if c = sep then [] # Split cs sep
      else (case Split cs sep of [] \<Rightarrow> [[c]] | w # ws \<Rightarrow> (c # w) # ws))"

fun Join :: "string list \<Rightarrow> string \<Rightarrow> string" where
  "Join [] sep = []"
| "Join [x] sep = x"
| "Join (x # y # ys) sep = x @ sep @ Join (y # ys) sep"

definition HasSuffix :: "string \<Rightarrow> string \<Rightarrow> bool" where
  "HasSuffix s suffix =
     (length suffix \<le> length s \<and> drop (length s - length suffix) s = suffix)"

definition Printf :: "string \<Rightarrow> Generator \<Rightarrow> Generator" where
  "Printf text g = g\<lparr>buf := buf g @ text\<rparr>"

subsection \<open>The environment\<close>

text \<open>
  What the program asks of the operating system and of the Go tool chain:
  \<^item> \<open>Stat_IsDir name\<close>: \<open>os.Stat(name)\<close> followed by \<open>IsDir()\<close>; \<open>None\<close> when \<open>os.Stat\<close> fails;
  \<^item> \<open>ImportDir d\<close>: the files of the package in directory \<open>d\<close>
    (\<open>GoFiles\<close>, \<open>CgoFiles\<close>, \<open>SFiles\<close> of \<open>build.Default.ImportDir\<close>, in that order);
  \<^item> \<open>ParseFile name\<close>: the package name and the top-level declarations that
    \<open>parser.ParseFile\<close> returns; \<open>None\<close> on a syntax error;
  \<^item> \<open>Check\<close>: whether \<open>types.Config.Check\<close> accepts the parsed files;
  \<^item> \<open>Import path\<close>: the name of the package that \<open>build.Import(path, ".", 0)\<close> finds;
  \<^item> \<open>Source\<close>: \<open>format.Source\<close>, with \<open>Inl\<close> the text of its error;
  \<^item> \<open>WriteFile name src\<close>: whether \<open>ioutil.WriteFile\<close> succeeds;
  \<^item> \<open>filepath_Dir\<close>, \<open>filepath_Join\<close>: \<open>filepath.Dir\<close> and \<open>filepath.Join\<close>;
  \<^item> \<open>strings_ToUpper\<close>: \<open>strings.ToUpper\<close>, which \<open>build\<close> registers with the template under
    the name \<open>ToUpper\<close>. It maps every letter of a UTF-8 string to its upper case by the
    Unicode tables of the Go library; the model takes it as it is.
\<close>

record env =
  Stat_IsDir :: "string \<Rightarrow> bool option"
  ImportDir :: "string \<Rightarrow> string list option"
  ParseFile :: "string \<Rightarrow> (string \<times> decl list) option"
  Check :: "(string \<times> decl list) list \<Rightarrow> bool"
  Import :: "string \<Rightarrow> string option"
  Source :: "string \<Rightarrow> string + string"
  WriteFile :: "string \<Rightarrow> string \<Rightarrow> bool"
  filepath_Dir :: "string \<Rightarrow> string"
  filepath_Join :: "string \<Rightarrow> string \<Rightarrow> string"
  strings_ToUpper :: "string \<Rightarrow> string"

subsection \<open>The template\<close>

text \<open>
  The data handed to the template by \<open>build\<close>, and the text of \<open>handlerWrap\<close> with its
  actions \<open>{{.Func}}\<close>, \<open>{{.EncodingPkg}}\<close>, \<open>{{.EncodingPkg | ToUpper}}\<close> and \<open>{{.T}}\<close> filled
  in (\<open>text/template\<close> inserts the strings as they are). The argument \<open>up\<close> is the function
  that the template finds under the name \<open>ToUpper\<close> in its function map.
\<close>

record Handler =
  Func :: string
  EncodingPkg :: string
  T :: string

definition handlerName :: "(string \<Rightarrow> string) \<Rightarrow> Handler \<Rightarrow> string" where
  "handlerName up h = Func h @ ''Handler'' @ up (EncodingPkg h)"

definition handlerWrap :: "(string \<Rightarrow> string) \<Rightarrow> Handler \<Rightarrow> string" where
  "handlerWrap up h =
     ''\<newline>'' @
     ''func '' @ handlerName up h @ ''(w http.ResponseWriter, r *http.Request) {\<newline>'' @
     tab @ ''x := '' @ T h @ ''{}\<newline>'' @
     tab @ ''err := '' @ EncodingPkg h @ ''.NewDecoder(r.Body).Decode(&x)\<newline>'' @
     tab @ ''if err != nil {\<newline>'' @
     tab @ tab @ ''w.WriteHeader(http.StatusBadRequest)\<newline>'' @
     tab @ tab @ ''return\<newline>'' @
     tab @ ''}\<newline>'' @
     tab @ ''resp, s := '' @ Func h @ ''(x)\<newline>'' @
     tab @ ''w.WriteHeader(s)\<newline>'' @
     tab @ EncodingPkg h @ ''.NewEncoder(w).Encode(resp)\<newline>'' @
     ''}\<newline>''"

text \<open>
  \<open>build\<close> puts \<open>strings.ToUpper\<close> into the function map and executes the template into
  the buffer. Executing this template on three strings into a \<open>bytes.Buffer\<close> cannot fail,
  so \<open>checkError\<close> never exits.
\<close>

definition build :: "env \<Rightarrow> string \<Rightarrow> string \<Rightarrow> string \<Rightarrow> Generator \<Rightarrow> Generator" where
  "build e fName pkgName pfn g =
     g\<lparr>buf := buf g @
            handlerWrap (strings_ToUpper e) \<lparr>Func = fName, EncodingPkg = pkgName, T = pfn\<rparr>\<rparr>"

subsection \<open>Matching a declaration\<close>

text \<open>
  \<open>genDecl\<close> processes one node of the walk. The result is the answer to \<open>ast.Inspect\<close>
  (descend or not), the updated file and the messages logged.
\<close>

definition genDecl :: "decl \<Rightarrow> File \<Rightarrow> bool \<times> File \<times> event list" where
  "genDecl node f =
     (case node of
        GenDecl \<Rightarrow> (True, f, [])
      | FuncDecl dname params \<Rightarrow>
          if dname = funcName f then
            if length params \<noteq> 1 then
              (False, f,
               [LogPrintf (funcName f @ '' should take only one parameter, found '' @
                           string_of_nat (length params) @ '' instead'')])
            else
              (case Type (params ! 0) of
                 Ident v \<Rightarrow> (False, f\<lparr>paramfullname := v, found := True\<rparr>, [])
               | SelectorExpr x sel \<Rightarrow>
                   (False, f\<lparr>paramfullname := x @ ''.'' @ sel, found := True\<rparr>, [])
               | OtherExpr v \<Rightarrow>
                   (False, f,
                    [LogPrintf (''Could not guess var full name, type not expected: '' @ v)]))
          else (False, f, []))"

text \<open>\<open>ast.Inspect(file.file, file.genDecl)\<close>: the walk over the declarations of one file.\<close>

fun Inspect :: "decl list \<Rightarrow> File \<Rightarrow> File \<times> event list" where
  "Inspect [] f = (f, [])"
| "Inspect (d # ds) f =
     (case genDecl d f of
        (_, f1, l1) \<Rightarrow> (case Inspect ds f1 of (f2, l2) \<Rightarrow> (f2, l1 @ l2)))"

text \<open>
  The loop of \<open>generate\<close> over \<open>g.pkg.files\<close>, with the local variables \<open>found\<close> and
  \<open>paramfullname\<close> as the accumulator \<open>(fnd, pfn)\<close>. Only \<open>file.funcName\<close> is assigned before
  the walk: \<open>file.found\<close> and \<open>file.paramfullname\<close> keep what an earlier call left in them.
\<close>

fun scanFiles ::
  "string \<Rightarrow> File list \<Rightarrow> bool \<times> string \<Rightarrow> File list \<times> (bool \<times> string) \<times> event list" where
  "scanFiles fName [] acc = ([], acc, [])"
| "scanFiles fName (f # fs) acc =
     (let f0 = f\<lparr>funcName := fName\<rparr> in
      (case astFile f0 of
         None \<Rightarrow>
           (case scanFiles fName fs acc of (fs', acc', l') \<Rightarrow> (f0 # fs', acc', l'))
       | Some ds \<Rightarrow>
           (case Inspect ds f0 of
              (f1, l1) \<Rightarrow>
                (case scanFiles fName fs
                        (if found f1 then (True, paramfullname f1) else acc) of
                   (fs', acc', l') \<Rightarrow> (f1 # fs', acc', l1 @ l')))))"

definition generate ::
  "env \<Rightarrow> string \<Rightarrow> string \<Rightarrow> Generator \<times> event list \<Rightarrow> Generator \<times> event list" where
  "generate e fName encPkgName st =
     (case st of
        (g, out) \<Rightarrow>
          (case scanFiles fName (files (pkg g)) (False, []) of
             (fs', (fnd, pfn), l) \<Rightarrow>
               (let g1 = g\<lparr>pkg := (pkg g)\<lparr>files := fs'\<rparr>\<rparr> in
                if fnd then (build e fName encPkgName pfn g1, out @ l)
                else (g1, out @ l @ [FmtPrintf (''Func not found: '' @ fName)]))))"

subsection \<open>Parsing the package\<close>

text \<open>
  In this subsection \<open>None\<close> is a call of \<open>log.Fatalf\<close>: the process exits with code 1.
\<close>

definition prefixDirectory :: "env \<Rightarrow> string \<Rightarrow> string list \<Rightarrow> string list" where
  "prefixDirectory e directory names =
     (if directory = ''.'' then names else map (filepath_Join e directory) names)"

fun parseNames :: "env \<Rightarrow> string list \<Rightarrow> (string \<times> decl list) list option" where
  "parseNames e [] = Some []"
| "parseNames e (n # ns) =
     (if \<not> HasSuffix n ''.go'' then parseNames e ns
      else (case ParseFile e n of
              None \<Rightarrow> None
            | Some parsedFile \<Rightarrow>
                (case parseNames e ns of
                   None \<Rightarrow> None
                 | Some rest \<Rightarrow> Some (parsedFile # rest))))"

definition newFile :: "string \<times> decl list \<Rightarrow> File" where
  "newFile parsedFile =
     \<lparr>astFile = Some (snd parsedFile), funcName = [], encodingPkgName = [],
      paramfullname = [], found = False\<rparr>"

definition parsePackage :: "env \<Rightarrow> string \<Rightarrow> string list \<Rightarrow> Package option" where
  "parsePackage e directory names =
     (case parseNames e names of
        None \<Rightarrow> None
      | Some astFiles \<Rightarrow>
          (case astFiles of
             [] \<Rightarrow> None
           | first # _ \<Rightarrow>
               if Check e astFiles
               then Some \<lparr>dir = directory, name = fst first, files = map newFile astFiles\<rparr>
               else None))"

definition parsePackageDir :: "env \<Rightarrow> string \<Rightarrow> Package option" where
  "parsePackageDir e directory =
     (case ImportDir e directory of
        None \<Rightarrow> None
      | Some names \<Rightarrow> parsePackage e directory (prefixDirectory e directory names))"

definition parsePackageFiles :: "env \<Rightarrow> string list \<Rightarrow> Package option" where
  "parsePackageFiles e names = parsePackage e ''.'' names"

subsection \<open>The program\<close>

text \<open>
  The flags \<open>-func\<close>, \<open>-encoding\<close> and \<open>-output\<close>, the remaining arguments \<open>flag.Args()\<close> and
  the whole command line after the program name, \<open>os.Args[1:]\<close>. The variable \<open>output\<close>
  is named \<open>outputFlag\<close> here.
\<close>

record flags =
  funcNames :: string
  encodingPkgNames :: string
  outputFlag :: string
  args :: "string list"
  osArgs :: "string list"

text \<open>The four \<open>Printf\<close> calls that start the buffer.\<close>

definition header :: "flags \<Rightarrow> Generator \<Rightarrow> Generator" where
  "header fl g =
     Printf ''\<newline>''
       (Printf (''package '' @ name (pkg g) @ ''\<newline>'')
          (Printf ''\<newline>''
             (Printf (''// Code generated by '' @ dq @ ''handler '' @ Join (osArgs fl) '' '' @ dq @
                      ''; DO NOT EDIT\<newline>'') g)))"

text \<open>
  The first loop over the encodings: each package must exist (\<open>None\<close> is \<open>log.Fatalf\<close>), and
  each gets its import line.
\<close>

definition importLine :: "string \<Rightarrow> string" where
  "importLine encodingPkg = ''import '' @ dq @ encodingPkg @ dq @ ''\<newline>''"

fun importLoop :: "env \<Rightarrow> string list \<Rightarrow> Generator \<Rightarrow> Generator option" where
  "importLoop e [] g = Some g"
| "importLoop e (p # ps) g =
     (case Import e p of
        None \<Rightarrow> None
      | Some _ \<Rightarrow> importLoop e ps (Printf (importLine p) g))"

text \<open>
  The second loop imports each encoding again and ignores the error; the first loop has
  already seen every one of them succeed. On an error \<open>build.Import\<close> still returns a
  package, whose name is taken to be empty.
\<close>

definition pkgName :: "env \<Rightarrow> string \<Rightarrow> string" where
  "pkgName e encodingPkg = (case Import e encodingPkg of None \<Rightarrow> [] | Some n \<Rightarrow> n)"

definition generateLoop ::
  "env \<Rightarrow> string list \<Rightarrow> string list \<Rightarrow> Generator \<times> event list \<Rightarrow> Generator \<times> event list" where
  "generateLoop e funcs encodings st =
     fold (\<lambda>fName. fold (\<lambda>encodingPkg. generate e fName (pkgName e encodingPkg)) encodings)
       funcs st"

text \<open>\<open>format\<close> returns the bytes to write and the warnings logged.\<close>

definition format :: "env \<Rightarrow> Generator \<Rightarrow> string \<times> event list" where
  "format e g =
     (case Source e (buf g) of
        Inl err \<Rightarrow>
          (buf g,
           [LogPrintf (''warning: internal error: invalid Go generated: '' @ err),
            LogPrintf ''warning: compile the package to analyze the error''])
      | Inr src \<Rightarrow> (src, []))"

text \<open>
  \<open>main\<close> in three parts, after its local variables \<open>funcs\<close>, \<open>encodings\<close>, \<open>args\<close> (here
  \<open>mainArgs\<close>) and \<open>outputName\<close>. \<open>load\<close> parses the package and yields the directory of the
  output file. \<open>emit\<close> fills the buffer: header, import lines, handlers. \<open>main\<close> checks the
  flags, runs both, formats and writes. An \<open>outcome\<close> is the exit code of the process, what it
  printed through \<open>log.Printf\<close> and \<open>fmt.Printf\<close>, and the file written, if any. The usage
  text and the messages of \<open>log.Fatalf\<close> are not recorded.
\<close>

record outcome =
  exit_code :: nat
  events :: "event list"
  written :: "(string \<times> string) option"

definition funcs :: "flags \<Rightarrow> string list" where
  "funcs fl = Split (funcNames fl) (CHR '','')"

definition encodings :: "flags \<Rightarrow> string list" where
  "encodings fl = Split (encodingPkgNames fl) (CHR '','')"

definition mainArgs :: "flags \<Rightarrow> string list" where
  "mainArgs fl = (if length (args fl) = 0 then [''.''] else args fl)"

definition outputName :: "env \<Rightarrow> flags \<Rightarrow> string \<Rightarrow> string" where
  "outputName e fl d =
     (if outputFlag fl = [] then filepath_Join e d ''generated_handlers.go'' else outputFlag fl)"

definition load :: "env \<Rightarrow> string list \<Rightarrow> (string \<times> Package) option" where
  "load e argl =
     (if length argl = 1 then
        (case Stat_IsDir e (argl ! 0) of
           None \<Rightarrow> None
         | Some True \<Rightarrow> map_option (Pair (argl ! 0)) (parsePackageDir e (argl ! 0))
         | Some False \<Rightarrow> map_option (Pair (filepath_Dir e (argl ! 0))) (parsePackageFiles e argl))
      else map_option (Pair (filepath_Dir e (argl ! 0))) (parsePackageFiles e argl))"

definition emit ::
  "env \<Rightarrow> flags \<Rightarrow> Package \<Rightarrow> (Generator \<times> event list) option" where
  "emit e fl p =
     (case importLoop e (encodings fl) (header fl \<lparr>buf = [], pkg = p\<rparr>) of
        None \<Rightarrow> None
      | Some g \<Rightarrow> Some (generateLoop e (funcs fl) (encodings fl) (g, [])))"

definition main :: "env \<Rightarrow> flags \<Rightarrow> outcome" where
  "main e fl =
     (if length (funcNames fl) = 0 \<or> length (encodingPkgNames fl) = 0
      then \<lparr>exit_code = 2, events = [], written = None\<rparr>
      else
        (case load e (mainArgs fl) of
           None \<Rightarrow> \<lparr>exit_code = 1, events = [], written = None\<rparr>
         | Some (d, p) \<Rightarrow>
             (case emit e fl p of
                None \<Rightarrow> \<lparr>exit_code = 1, events = [], written = None\<rparr>
              | Some (g, out) \<Rightarrow>
                  (case format e g of
                     (src, warnings) \<Rightarrow>
                       if WriteFile e (outputName e fl d) src
                       then \<lparr>exit_code = 0, events = out @ warnings,
                             written = Some (outputName e fl d, src)\<rparr>
                       else \<lparr>exit_code = 1, events = out @ warnings, written = None\<rparr>))))"

text \<open>
  The buffer that \<open>main\<close> hands to \<open>format\<close>: the document before formatting. \<open>None\<close> when
  the run stops before that point.
\<close>

definition document :: "env \<Rightarrow> flags \<Rightarrow> string option" where
  "document e fl =
     (if length (funcNames fl) = 0 \<or> length (encodingPkgNames fl) = 0 then None
      else (case load e (mainArgs fl) of
              None \<Rightarrow> None
            | Some (d, p) \<Rightarrow> map_option (\<lambda>st. buf (fst st)) (emit e fl p)))"

subsection \<open>The Go code of a handler\<close>

text \<open>
  What \<open>handlerWrap\<close> renders is the declaration of a Go function. It uses a small fragment
  of Go: short variable declarations whose right-hand side is a composite literal \<open>T{}\<close>,
  a call \<open>pkg.NewDecoder(r.Body).Decode(&x)\<close> or a call \<open>F(x, ...)\<close> of a function; a block
  \<open>if v != nil { ... }\<close>; a call \<open>w.WriteHeader(a)\<close> on a variable or on a qualified name; a
  call \<open>pkg.NewEncoder(w).Encode(v)\<close>; and \<open>return\<close>. The types below are the syntax trees of
  this fragment, \<open>showFunc\<close> prints a tree as source text (one statement per line, one tab
  per level of nesting, after an empty line), and \<open>handlerFunc up h\<close> is the tree of the
  handler for \<open>h\<close>. Lemma \<open>handlerWrap_showFunc\<close> below shows that the template renders
  exactly the text of this tree.
\<close>

datatype goexpr =
    CompositeLit string
  | DecodeCall string string
  | FuncCall string "string list"

datatype goarg = Var string | Selector string string

datatype gostmt =
    Define "string list" goexpr
  | IfNotNil string "gostmt list"
  | WriteHeaderCall goarg
  | EncodeCall string string
  | Return

record gofunc =
  fname :: string
  fbody :: "gostmt list"

definition showExpr :: "goexpr \<Rightarrow> string" where
  "showExpr ex =
     (case ex of
        CompositeLit t \<Rightarrow> t @ ''{}''
      | DecodeCall p x \<Rightarrow> p @ ''.NewDecoder(r.Body).Decode(&'' @ x @ '')''
      | FuncCall f as \<Rightarrow> f @ ''('' @ Join as '', '' @ '')'')"

definition showArg :: "goarg \<Rightarrow> string" where
  "showArg a = (case a of Var v \<Rightarrow> v | Selector p n \<Rightarrow> p @ ''.'' @ n)"

definition indent :: "nat \<Rightarrow> string" where
  "indent n = concat (replicate n tab)"

fun showStmt :: "nat \<Rightarrow> gostmt \<Rightarrow> string" where
  "showStmt n (Define vs ex) = indent n @ Join vs '', '' @ '' := '' @ showExpr ex @ ''\<newline>''"
| "showStmt n (IfNotNil v body) =
     indent n @ ''if '' @ v @ '' != nil {\<newline>'' @
     concat (map (showStmt (Suc n)) body) @
     indent n @ ''}\<newline>''"
| "showStmt n (WriteHeaderCall a) = indent n @ ''w.WriteHeader('' @ showArg a @ '')\<newline>''"
| "showStmt n (EncodeCall p v) = indent n @ p @ ''.NewEncoder(w).Encode('' @ v @ '')\<newline>''"
| "showStmt n Return = indent n @ ''return\<newline>''"

definition showFunc :: "gofunc \<Rightarrow> string" where
  "showFunc fn =
     ''\<newline>'' @
     ''func '' @ fname fn @ ''(w http.ResponseWriter, r *http.Request) {\<newline>'' @
     concat (map (showStmt 1) (fbody fn)) @
     ''}\<newline>''"

definition handlerFunc :: "(string \<Rightarrow> string) \<Rightarrow> Handler \<Rightarrow> gofunc" where
  "handlerFunc up h =
     \<lparr>fname = Func h @ ''Handler'' @ up (EncodingPkg h),
      fbody =
        [Define [''x''] (CompositeLit (T h)),
         Define [''err''] (DecodeCall (EncodingPkg h) ''x''),
         IfNotNil ''err'' [WriteHeaderCall (Selector ''http'' ''StatusBadRequest''), Return],
         Define [''resp'', ''s''] (FuncCall (Func h) [''x'']),
         WriteHeaderCall (Var ''s''),
         EncodeCall (EncodingPkg h) ''resp'']\<rparr>"

subsection \<open>What a generated handler does\<close>

text \<open>
  The body of the function that \<open>handlerWrap\<close> declares, statement by statement:
  \<^verbatim>\<open>x := T{}\<close>, \<^verbatim>\<open>err := pkg.NewDecoder(r.Body).Decode(&x)\<close>, the early return on
  \<^verbatim>\<open>err != nil\<close> after \<^verbatim>\<open>w.WriteHeader(http.StatusBadRequest)\<close>, then
  \<^verbatim>\<open>resp, s := F(x)\<close>, \<^verbatim>\<open>w.WriteHeader(s)\<close> and \<^verbatim>\<open>pkg.NewEncoder(w).Encode(resp)\<close>.
  \<open>Decode body zero\<close> answers whether decoding failed and what \<open>x\<close> holds afterwards. The
  result is what the handler did, in order: calls of the target function and of the two
  operations on the response writer.
\<close>

datatype ('x, 'v) effect = Call 'x | WriteHeader int | Encode 'v

definition StatusBadRequest :: int where
  "StatusBadRequest = 400"

definition handlerRun ::
  "('b \<Rightarrow> 'x \<Rightarrow> bool \<times> 'x) \<Rightarrow> ('x \<Rightarrow> 'v \<times> int) \<Rightarrow> 'x \<Rightarrow> 'b \<Rightarrow> ('x, 'v) effect list" where
  "handlerRun Decode F zero body =
     (case Decode body zero of
        (err, x) \<Rightarrow>
          if err then [WriteHeader StatusBadRequest]
          else (case F x of (resp, s) \<Rightarrow> [Call x, WriteHeader s, Encode resp]))"

text \<open>
  The same, for every function of the fragment. A \<open>world\<close> is what a generated file is
  compiled and run with: the body of the request, the zero value of each type, the decoder
  of each encoding package (it answers whether decoding failed and what the variable holds
  afterwards) and the functions of the package under their names, each with a response
  and an \<open>int\<close> status as results. A state is the values of the local variables and the
  effects so far. \<open>execStmt\<close> answers whether the statement returned from the function and
  the new state; \<open>None\<close> means that the statement uses a variable that is not declared or not
  of the type the operation needs.
\<close>

datatype ('x, 'v) goval = ParamV 'x | ErrV bool | RespV 'v | IntV int

record ('b, 'x, 'v) world =
  reqBody :: 'b
  zeroOf :: "string \<Rightarrow> 'x"
  decoderOf :: "string \<Rightarrow> 'b \<Rightarrow> 'x \<Rightarrow> bool \<times> 'x"
  funcOf :: "string \<Rightarrow> 'x \<Rightarrow> 'v \<times> int"

type_synonym ('x, 'v) gostate = "(string \<rightharpoonup> ('x, 'v) goval) \<times> ('x, 'v) effect list"

definition execDefine ::
  "('b, 'x, 'v) world \<Rightarrow> string list \<Rightarrow> goexpr \<Rightarrow> ('x, 'v) gostate \<Rightarrow> ('x, 'v) gostate option" where
  "execDefine w vs ex st =
     (case st of
        (\<sigma>, es) \<Rightarrow>
          (case (vs, ex) of
             ([v], CompositeLit t) \<Rightarrow> Some (\<sigma>(v \<mapsto> ParamV (zeroOf w t)), es)
           | ([v], DecodeCall p x) \<Rightarrow>
               (case \<sigma> x of
                  Some (ParamV xv) \<Rightarrow>
                    (case decoderOf w p (reqBody w) xv of
                       (err, xv') \<Rightarrow> Some (\<sigma>(x \<mapsto> ParamV xv', v \<mapsto> ErrV err), es))
                | _ \<Rightarrow> None)
           | ([a, b], FuncCall f [x]) \<Rightarrow>
               (case \<sigma> x of
                  Some (ParamV xv) \<Rightarrow>
                    (case funcOf w f xv of
                       (r, s) \<Rightarrow> Some (\<sigma>(a \<mapsto> RespV r, b \<mapsto> IntV s), es @ [Call xv]))
                | _ \<Rightarrow> None)
           | _ \<Rightarrow> None))"

fun execStmt ::
  "('b, 'x, 'v) world \<Rightarrow> gostmt \<Rightarrow> ('x, 'v) gostate \<Rightarrow> (bool \<times> ('x, 'v) gostate) option"
and execStmts ::
  "('b, 'x, 'v) world \<Rightarrow> gostmt list \<Rightarrow> ('x, 'v) gostate \<Rightarrow> (bool \<times> ('x, 'v) gostate) option"
where
  "execStmt w (Define vs ex) st = map_option (Pair False) (execDefine w vs ex st)"
| "execStmt w (IfNotNil v body) st =
     (case fst st v of
        Some (ErrV notNil) \<Rightarrow> if notNil then execStmts w body st else Some (False, st)
      | _ \<Rightarrow> None)"
| "execStmt w (WriteHeaderCall a) st =
     (case a of
        Var v \<Rightarrow>
          (case fst st v of
             Some (IntV n) \<Rightarrow> Some (False, fst st, snd st @ [WriteHeader n])
           | _ \<Rightarrow> None)
      | Selector p n \<Rightarrow>
          if p = ''http'' \<and> n = ''StatusBadRequest''
          then Some (False, fst st, snd st @ [WriteHeader StatusBadRequest])
          else None)"
| "execStmt w (EncodeCall p v) st =
     (case fst st v of
        Some (RespV r) \<Rightarrow> Some (False, fst st, snd st @ [Encode r])
      | _ \<Rightarrow> None)"
| "execStmt w Return st = Some (True, st)"
| "execStmts w [] st = Some (False, st)"
| "execStmts w (s # ss) st =
     (case execStmt w s st of
        None \<Rightarrow> None
      | Some (returned, st') \<Rightarrow> if returned then Some (True, st') else execStmts w ss st')"

definition runFunc :: "('b, 'x, 'v) world \<Rightarrow> gofunc \<Rightarrow> ('x, 'v) effect list option" where
  "runFunc w fn = map_option (\<lambda>r. snd (snd r)) (execStmts w (fbody fn) (Map.empty, []))"

subsection \<open>Properties of a package that the theorems speak about\<close>

text \<open>
  \<open>declared fName p\<close>: some file of the package has a function declaration named \<open>fName\<close>.
  \<open>unmarked p\<close>: no file of the package has its \<open>found\<close> flag set, as after \<open>parsePackage\<close>.
\<close>

definition declares :: "string \<Rightarrow> decl \<Rightarrow> bool" where
  "declares fName d = (case d of FuncDecl n ps \<Rightarrow> n = fName | GenDecl \<Rightarrow> False)"

definition declaredIn :: "string \<Rightarrow> File \<Rightarrow> bool" where
  "declaredIn fName f =
     (case astFile f of None \<Rightarrow> False | Some ds \<Rightarrow> list_ex (declares fName) ds)"

definition declared :: "string \<Rightarrow> Package \<Rightarrow> bool" where
  "declared fName p = list_ex (declaredIn fName) (files p)"

definition unmarked :: "Package \<Rightarrow> bool" where
  "unmarked p = list_all (\<lambda>f. \<not> found f) (files p)"

text \<open>
  \<open>matches fName d\<close>: \<open>genDecl\<close>, looking for \<open>fName\<close>, sets the flag \<open>found\<close> at \<open>d\<close>: a function
  declaration of that name with one parameter field whose type is an identifier or a
  selector. \<open>matched fName p\<close>: some file of the package has such a declaration.
\<close>

definition matches :: "string \<Rightarrow> decl \<Rightarrow> bool" where
  "matches fName d =
     (case d of
        FuncDecl n ps \<Rightarrow>
          n = fName \<and> length ps = 1 \<and>
          (case Type (ps ! 0) of Ident _ \<Rightarrow> True | SelectorExpr _ _ \<Rightarrow> True | OtherExpr _ \<Rightarrow> False)
      | GenDecl \<Rightarrow> False)"

definition matchedIn :: "string \<Rightarrow> File \<Rightarrow> bool" where
  "matchedIn fName f =
     (case astFile f of None \<Rightarrow> False | Some ds \<Rightarrow> list_ex (matches fName) ds)"

definition matched :: "string \<Rightarrow> Package \<Rightarrow> bool" where
  "matched fName p = list_ex (matchedIn fName) (files p)"

text \<open>
  \<open>hasDecl d p\<close>: some file of the package contains the declaration \<open>d\<close>.
  \<open>withFuncName fName g\<close>: the generator after a walk for \<open>fName\<close> that changed no flag.
  \<open>notFound fName\<close>: the line that \<open>generate\<close> prints when it builds nothing.
\<close>

definition hasDecl :: "decl \<Rightarrow> Package \<Rightarrow> bool" where
  "hasDecl d p =
     list_ex (\<lambda>f. case astFile f of None \<Rightarrow> False | Some ds \<Rightarrow> d \<in> set ds) (files p)"

definition withFuncName :: "string \<Rightarrow> Generator \<Rightarrow> Generator" where
  "withFuncName fName g =
     g\<lparr>pkg := (pkg g)\<lparr>files := map (\<lambda>f. f\<lparr>funcName := fName\<rparr>) (files (pkg g))\<rparr>\<rparr>"

definition notFound :: "string \<Rightarrow> event" where
  "notFound fName = FmtPrintf (''Func not found: '' @ fName)"

text \<open>
  \<open>oneLine s\<close>: the string has no line break, as every Go identifier and package name.
  \<open>countFuncDecls s\<close>: the number of lines of \<open>s\<close> that start a function declaration, that
  is, that begin with \<open>func\<close> and a space.
\<close>

definition oneLine :: "string \<Rightarrow> bool" where
  "oneLine s = (CHR ''\<newline>'' \<notin> set s)"

definition countFuncDecls :: "string \<Rightarrow> nat" where
  "countFuncDecls s =
     length (filter (\<lambda>ln. take 5 ln = ''func '') (Split s (CHR ''\<newline>'')))"

subsection \<open>Example packages\<close>

text \<open>
  The encoding packages of the examples have ASCII names. On ASCII text \<open>strings.ToUpper\<close>
  maps the letters \<open>a\<close> to \<open>z\<close> to \<open>A\<close> to \<open>Z\<close> and keeps every other byte; \<open>asciiToUpper\<close> does
  that, and the examples apply it to ASCII names only.
\<close>

definition upper_char :: "char \<Rightarrow> char" where
  "upper_char c =
     (case map_of (zip ''abcdefghijklmnopqrstuvwxyz'' ''ABCDEFGHIJKLMNOPQRSTUVWXYZ'') c of
        Some u \<Rightarrow> u
      | None \<Rightarrow> c)"

definition asciiToUpper :: "string \<Rightarrow> string" where
  "asciiToUpper s = map upper_char s"

text \<open>
  The package of the documentation, \<open>jober\<close>, in one file:
  \<^verbatim>\<open>type job struct { A string }\<close>,
  \<^verbatim>\<open>func PutJob(j job) (int, interface{})\<close>,
  \<^verbatim>\<open>func Import(a A, b B, c C, d z.D) error\<close> and
  \<^verbatim>\<open>func Merge(a, b X) (int, interface{})\<close>.
  It is the package of the current directory; three encoding packages can be imported,
  two of them named \<open>json\<close>; formatting leaves the text as it is and the file can be written.
\<close>

definition jober_go :: "decl list" where
  "jober_go =
     [GenDecl,
      FuncDecl ''PutJob'' [Field [''j''] (Ident ''job'')],
      FuncDecl ''Import''
        [Field [''a''] (Ident ''A''), Field [''b''] (Ident ''B''), Field [''c''] (Ident ''C''),
         Field [''d''] (SelectorExpr ''z'' ''D'')],
      FuncDecl ''Merge'' [Field [''a'', ''b''] (Ident ''X'')]]"

definition jober_env :: env where
  "jober_env =
     \<lparr>Stat_IsDir = (\<lambda>n. Some (n = ''.'')),
      ImportDir = (\<lambda>d. if d = ''.'' then Some [''jober.go''] else None),
      ParseFile = (\<lambda>n. if n = ''jober.go'' then Some (''jober'', jober_go) else None),
      Check = (\<lambda>_. True),
      Import = map_of [(''encoding/json'', ''json''), (''encoding/xml'', ''xml''),
                       (''vendor/json'', ''json'')],
      Source = Inr,
      WriteFile = (\<lambda>_ _. True),
      filepath_Dir = (\<lambda>_. ''.''),
      filepath_Join = (\<lambda>d n. if d = ''.'' then n else d @ ''/'' @ n),
      strings_ToUpper = asciiToUpper\<rparr>"

text \<open>
  A package \<open>store\<close> in three files, enumerated in this order, each with the declaration
  of its types and one function:
  \<open>a.go\<close> with the method \<^verbatim>\<open>func (a A) Put(x X) (int, interface{})\<close>,
  \<open>b.go\<close> with the method \<^verbatim>\<open>func (b B) Put(y Y) (int, interface{})\<close> and
  \<open>c.go\<close> with \<^verbatim>\<open>func Get(z Z) (int, interface{})\<close>.
\<close>

definition store_env :: env where
  "store_env =
     jober_env
       \<lparr>ImportDir := (\<lambda>d. if d = ''.'' then Some [''a.go'', ''b.go'', ''c.go''] else None),
        ParseFile :=
          map_of
            [(''a.go'', (''store'', [GenDecl, FuncDecl ''Put'' [Field [''x''] (Ident ''X'')]])),
             (''b.go'', (''store'', [GenDecl, FuncDecl ''Put'' [Field [''y''] (Ident ''Y'')]])),
             (''c.go'', (''store'', [GenDecl, FuncDecl ''Get'' [Field [''z''] (Ident ''Z'')]]))]\<rparr>"

text \<open>The command line \<^verbatim>\<open>handler -func fs -encoding es\<close>.\<close>

definition cmdline :: "string \<Rightarrow> string \<Rightarrow> flags" where
  "cmdline fs es =
     \<lparr>funcNames = fs, encodingPkgNames = es, outputFlag = [], args = [],
      osArgs = [''-func'', fs, ''-encoding'', es]\<rparr>"

text \<open>The two packages as \<open>parsePackage\<close> builds them.\<close>

definition jober_pkg :: Package where
  "jober_pkg = \<lparr>dir = ''.'', name = ''jober'', files = [newFile (''jober'', jober_go)]\<rparr>"

definition store_pkg :: Package where
  "store_pkg =
     \<lparr>dir = ''.'', name = ''store'',
      files =
        [newFile (''store'', [GenDecl, FuncDecl ''Put'' [Field [''x''] (Ident ''X'')]]),
         newFile (''store'', [GenDecl, FuncDecl ''Put'' [Field [''y''] (Ident ''Y'')]]),
         newFile (''store'', [GenDecl, FuncDecl ''Get'' [Field [''z''] (Ident ''Z'')]])]\<rparr>"

section \<open>Properties\<close>

subsection \<open>Evaluation of the examples\<close>

lemmas eval_defs =
  main_def document_def load_def emit_def format_def generateLoop_def pkgName_def
  header_def parsePackageFiles_def parsePackageDir_def parsePackage_def
  newFile_def prefixDirectory_def generate_def build_def genDecl_def Printf_def HasSuffix_def
  funcs_def encodings_def mainArgs_def outputName_def
  jober_env_def jober_go_def store_env_def cmdline_def jober_pkg_def store_pkg_def

lemma load_jober: "load jober_env (mainArgs (cmdline fs es)) = Some (''.'', jober_pkg)"
  by (simp add: eval_defs)

lemma load_store: "load store_env (mainArgs (cmdline fs es)) = Some (''.'', store_pkg)"
  by (simp add: eval_defs)

text \<open>
  The handler for \<open>PutJob\<close> and the encoding package \<open>json\<close>, as the template renders it.
\<close>

lemma handlerWrap_PutJob:
  "handlerWrap asciiToUpper \<lparr>Func = ''PutJob'', EncodingPkg = ''json'', T = ''job''\<rparr> =
     ''\<newline>func PutJobHandlerJSON(w http.ResponseWriter, r *http.Request) {\<newline>'' @
     tab @ ''x := job{}\<newline>'' @
     tab @ ''err := json.NewDecoder(r.Body).Decode(&x)\<newline>'' @
     tab @ ''if err != nil {\<newline>'' @
     tab @ tab @ ''w.WriteHeader(http.StatusBadRequest)\<newline>'' @
     tab @ tab @ ''return\<newline>'' @
     tab @ ''}\<newline>'' @
     tab @ ''resp, s := PutJob(x)\<newline>'' @
     tab @ ''w.WriteHeader(s)\<newline>'' @
     tab @ ''json.NewEncoder(w).Encode(resp)\<newline>'' @
     ''}\<newline>''"
  by (simp add: handlerWrap_def handlerName_def asciiToUpper_def upper_char_def)

subsection \<open>The walk over one file\<close>

lemma genDecl_keeps:
  "genDecl d f = (b, f', l) \<Longrightarrow>
     astFile f' = astFile f \<and> funcName f' = funcName f \<and> encodingPkgName f' = encodingPkgName f"
  by (auto simp: genDecl_def split: decl.splits if_splits expr.splits)

lemma Inspect_keeps:
  "Inspect ds f = (f', l) \<Longrightarrow>
     astFile f' = astFile f \<and> funcName f' = funcName f \<and> encodingPkgName f' = encodingPkgName f"
proof (induction ds arbitrary: f f' l)
  case Nil
  then show ?case by simp
next
  case (Cons d ds)
  obtain b f1 l1 where g: "genDecl d f = (b, f1, l1)" by (cases "genDecl d f") auto
  obtain f2 l2 where i: "Inspect ds f1 = (f2, l2)" by (cases "Inspect ds f1") auto
  from Cons.prems g i have "f' = f2" by simp
  with Cons.IH [OF i] genDecl_keeps [OF g] show ?case by simp
qed

lemma genDecl_undeclared:
  "\<not> declares (funcName f) d \<Longrightarrow> genDecl d f = (case d of GenDecl \<Rightarrow> True | _ \<Rightarrow> False, f, [])"
  by (auto simp: genDecl_def declares_def split: decl.splits)

lemma Inspect_undeclared:
  "\<not> list_ex (declares (funcName f)) ds \<Longrightarrow> Inspect ds f = (f, [])"
  by (induction ds) (auto simp: genDecl_undeclared)

lemma genDecl_unmatched:
  "\<not> matches (funcName f) d \<Longrightarrow> fst (snd (genDecl d f)) = f"
  by (auto simp: genDecl_def matches_def split: decl.splits expr.splits)

lemma Inspect_unmatched:
  "\<not> list_ex (matches (funcName f)) ds \<Longrightarrow> fst (Inspect ds f) = f"
proof (induction ds)
  case Nil
  then show ?case by simp
next
  case (Cons d ds)
  then have "fst (snd (genDecl d f)) = f" by (simp add: genDecl_unmatched)
  with Cons show ?case by (auto split: prod.splits)
qed

lemma Inspect_append:
  "Inspect (xs @ ys) f =
     (case Inspect xs f of (f1, l1) \<Rightarrow> (case Inspect ys f1 of (f2, l2) \<Rightarrow> (f2, l1 @ l2)))"
  by (induction xs arbitrary: f) (auto split: prod.splits)

lemma genDecl_found_mono: "genDecl d f = (b, f', l) \<Longrightarrow> found f \<Longrightarrow> found f'"
  by (auto simp: genDecl_def split: decl.splits if_splits expr.splits)

lemma Inspect_found_mono: "Inspect ds f = (f', l) \<Longrightarrow> found f \<Longrightarrow> found f'"
proof (induction ds arbitrary: f f' l)
  case Nil
  then show ?case by simp
next
  case (Cons d ds)
  obtain b f1 l1 where g: "genDecl d f = (b, f1, l1)" by (cases "genDecl d f") auto
  obtain f2 l2 where i: "Inspect ds f1 = (f2, l2)" by (cases "Inspect ds f1") auto
  from Cons.prems g i have "f' = f2" by simp
  with Cons.IH [OF i] genDecl_found_mono [OF g] Cons.prems(2) show ?case by simp
qed

lemma genDecl_Ident:
  "funcName f = F \<Longrightarrow>
     genDecl (FuncDecl F [Field ns (Ident t)]) f = (False, f\<lparr>paramfullname := t, found := True\<rparr>, [])"
  by (simp add: genDecl_def)

lemma Inspect_found:
  "FuncDecl F [Field ns (Ident t)] \<in> set ds \<Longrightarrow> funcName f = F \<Longrightarrow> found (fst (Inspect ds f))"
proof (induction ds arbitrary: f)
  case Nil
  then show ?case by simp
next
  case (Cons d ds)
  obtain b f1 l1 where g: "genDecl d f = (b, f1, l1)" by (cases "genDecl d f") auto
  obtain f2 l2 where i: "Inspect ds f1 = (f2, l2)" by (cases "Inspect ds f1") auto
  have fn: "funcName f1 = F" using genDecl_keeps [OF g] Cons.prems(2) by simp
  show ?case
  proof (cases "d = FuncDecl F [Field ns (Ident t)]")
    case True
    with g Cons.prems(2) have "found f1" by (auto simp: genDecl_Ident)
    with Inspect_found_mono [OF i] g i show ?thesis by simp
  next
    case False
    with Cons.prems(1) have "FuncDecl F [Field ns (Ident t)] \<in> set ds" by simp
    from Cons.IH [OF this fn] g i show ?thesis by simp
  qed
qed

lemma Inspect_last_match:
  assumes "\<not> list_ex (declares F) ds2" and "funcName f = F"
    and "Inspect (ds1 @ FuncDecl F [Field ns (Ident X)] # ds2) f = (f', l)"
  shows "found f' \<and> paramfullname f' = X"
proof -
  obtain f1 l1 where i1: "Inspect ds1 f = (f1, l1)" by (cases "Inspect ds1 f") auto
  have fn: "funcName f1 = F" using Inspect_keeps [OF i1] assms(2) by simp
  let ?f2 = "f1\<lparr>paramfullname := X, found := True\<rparr>"
  have "Inspect ds2 ?f2 = (?f2, [])" using assms(1) fn by (simp add: Inspect_undeclared)
  with i1 fn have "Inspect (ds1 @ FuncDecl F [Field ns (Ident X)] # ds2) f = (?f2, l1)"
    by (simp add: Inspect_append genDecl_Ident)
  with assms(3) show ?thesis by auto
qed

subsection \<open>The loop over the files\<close>

lemma scanFiles_undeclared:
  "list_all (\<lambda>f. \<not> found f) fs \<Longrightarrow> \<not> list_ex (declaredIn fName) fs \<Longrightarrow>
     scanFiles fName fs acc = (map (\<lambda>f. f\<lparr>funcName := fName\<rparr>) fs, acc, [])"
proof (induction fs arbitrary: acc)
  case Nil
  then show ?case by simp
next
  case (Cons f fs)
  show ?case
  proof (cases "astFile f")
    case None
    with Cons show ?thesis by simp
  next
    case (Some ds)
    with Cons.prems have "\<not> list_ex (declares fName) ds" by (simp add: declaredIn_def)
    then have "Inspect ds (f\<lparr>funcName := fName\<rparr>) = (f\<lparr>funcName := fName\<rparr>, [])"
      by (simp add: Inspect_undeclared)
    with Some Cons show ?thesis by simp
  qed
qed

lemma scanFiles_unmatched:
  "list_all (\<lambda>f. \<not> found f) fs \<Longrightarrow> \<not> list_ex (matchedIn fName) fs \<Longrightarrow>
     \<exists>l. scanFiles fName fs acc = (map (\<lambda>f. f\<lparr>funcName := fName\<rparr>) fs, acc, l)"
proof (induction fs arbitrary: acc)
  case Nil
  then show ?case by simp
next
  case (Cons f fs)
  from Cons.prems have "list_all (\<lambda>f. \<not> found f) fs" "\<not> list_ex (matchedIn fName) fs"
    by simp_all
  from Cons.IH [OF this, of acc] obtain l where
    l: "scanFiles fName fs acc = (map (\<lambda>f. f\<lparr>funcName := fName\<rparr>) fs, acc, l)"
    by blast
  show ?case
  proof (cases "astFile f")
    case None
    with l show ?thesis by simp
  next
    case (Some ds)
    with Cons.prems have "\<not> list_ex (matches fName) ds" by (simp add: matchedIn_def)
    then have "fst (Inspect ds (f\<lparr>funcName := fName\<rparr>)) = f\<lparr>funcName := fName\<rparr>"
      by (simp add: Inspect_unmatched)
    then obtain l1 where "Inspect ds (f\<lparr>funcName := fName\<rparr>) = (f\<lparr>funcName := fName\<rparr>, l1)"
      by (cases "Inspect ds (f\<lparr>funcName := fName\<rparr>)") auto
    with Some Cons.prems l show ?thesis by simp
  qed
qed

lemma scanFiles_acc_mono:
  "scanFiles fName fs (True, x) = (fs', (fnd, pfn), l) \<Longrightarrow> fnd"
proof (induction fs arbitrary: x fs' l)
  case Nil
  then show ?case by auto
next
  case (Cons f fs)
  from Cons.prems obtain y fs2 l2 where "scanFiles fName fs (True, y) = (fs2, (fnd, pfn), l2)"
    by (auto simp: Let_def split: option.splits prod.splits if_splits)
  then show ?case by (rule Cons.IH)
qed

lemma scanFiles_found:
  assumes "f \<in> set fs" and "astFile f = Some ds" and "FuncDecl F [Field ns (Ident t)] \<in> set ds"
    and "scanFiles F fs acc = (fs', (fnd, pfn), l)"
  shows fnd
  using assms
proof (induction fs arbitrary: acc fs' l)
  case Nil
  then show ?case by simp
next
  case (Cons x fs)
  show ?case
  proof (cases "x = f")
    case True
    obtain f1 l1 where i: "Inspect ds (f\<lparr>funcName := F\<rparr>) = (f1, l1)"
      by (cases "Inspect ds (f\<lparr>funcName := F\<rparr>)") auto
    have "found f1" using Inspect_found [OF Cons.prems(3), of "f\<lparr>funcName := F\<rparr>"] i by simp
    with Cons.prems(2,4) True i obtain fs2 l2 where
      "scanFiles F fs (True, paramfullname f1) = (fs2, (fnd, pfn), l2)"
      by (auto simp: Let_def split: prod.splits)
    from scanFiles_acc_mono [OF this] show ?thesis .
  next
    case False
    with Cons.prems(1) have "f \<in> set fs" by simp
    moreover from Cons.prems(4) obtain acc1 fs2 l2 where
      "scanFiles F fs acc1 = (fs2, (fnd, pfn), l2)"
      by (auto simp: Let_def split: option.splits prod.splits if_splits)
    ultimately show ?thesis using Cons.IH Cons.prems(2,3) by blast
  qed
qed

lemma scanFiles_append:
  "scanFiles fName (xs @ ys) acc =
     (case scanFiles fName xs acc of
        (xs', acc1, l1) \<Rightarrow>
          (case scanFiles fName ys acc1 of (ys', acc2, l2) \<Rightarrow> (xs' @ ys', acc2, l1 @ l2)))"
  by (induction xs arbitrary: acc) (auto simp: Let_def split: option.splits prod.splits)

lemma scanFiles_last_match:
  assumes "astFile f = Some (ds1 @ FuncDecl F [Field ns (Ident X)] # ds2)"
    and "\<not> list_ex (declares F) ds2"
    and "list_all (\<lambda>f. \<not> found f) fs2" and "\<not> list_ex (declaredIn F) fs2"
  shows "\<exists>fs' l. scanFiles F (fs1 @ f # fs2) acc = (fs', (True, X), l)"
proof -
  obtain fs1' acc1 l1 where s1: "scanFiles F fs1 acc = (fs1', acc1, l1)"
    by (cases "scanFiles F fs1 acc") auto
  obtain f' l where i: "Inspect (ds1 @ FuncDecl F [Field ns (Ident X)] # ds2) (f\<lparr>funcName := F\<rparr>) = (f', l)"
    by (cases "Inspect (ds1 @ FuncDecl F [Field ns (Ident X)] # ds2) (f\<lparr>funcName := F\<rparr>)") auto
  from Inspect_last_match [OF assms(2) _ i] have f': "found f'" "paramfullname f' = X" by simp_all
  have s2: "scanFiles F fs2 (True, X) = (map (\<lambda>f. f\<lparr>funcName := F\<rparr>) fs2, (True, X), [])"
    using assms(3,4) by (rule scanFiles_undeclared)
  have "scanFiles F (f # fs2) acc1 = (f' # map (\<lambda>f. f\<lparr>funcName := F\<rparr>) fs2, (True, X), l)"
    using assms(1) i f' s2 by simp
  with s1 have "scanFiles F (fs1 @ f # fs2) acc =
      (fs1' @ f' # map (\<lambda>f. f\<lparr>funcName := F\<rparr>) fs2, (True, X), l1 @ l)"
    by (simp add: scanFiles_append)
  then show ?thesis by blast
qed

subsection \<open>One call of \<open>generate\<close>\<close>

lemma withFuncName_simps [simp]:
  "buf (withFuncName n g) = buf g"
  "unmarked (pkg (withFuncName n g)) = unmarked (pkg g)"
  "declared m (pkg (withFuncName n g)) = declared m (pkg g)"
  "withFuncName n (withFuncName m g) = withFuncName n g"
  by (simp_all add: withFuncName_def unmarked_def declared_def declaredIn_def
        list_all_iff list_ex_iff comp_def)

lemma withFuncName_matched [simp]:
  "matched m (pkg (withFuncName n g)) = matched m (pkg g)"
  by (simp add: withFuncName_def matched_def matchedIn_def list_ex_iff)

lemma generate_undeclared:
  assumes "unmarked (pkg g)" and "\<not> declared fName (pkg g)"
  shows "generate e fName a (g, out) = (withFuncName fName g, out @ [notFound fName])"
  using assms scanFiles_undeclared [of "files (pkg g)" fName "(False, [])"]
  by (simp add: generate_def unmarked_def declared_def withFuncName_def notFound_def)

lemma generate_unmatched:
  assumes "unmarked (pkg g)" and "\<not> matched fName (pkg g)"
  shows "\<exists>l. generate e fName a (g, out) = (withFuncName fName g, out @ l)"
proof -
  from scanFiles_unmatched [of "files (pkg g)" fName "(False, [])"] assms obtain l where
    "scanFiles fName (files (pkg g)) (False, []) =
       (map (\<lambda>f. f\<lparr>funcName := fName\<rparr>) (files (pkg g)), (False, []), l)"
    by (auto simp: unmarked_def matched_def)
  then have "generate e fName a (g, out) = (withFuncName fName g, out @ l @ [notFound fName])"
    by (simp add: generate_def withFuncName_def notFound_def)
  then show ?thesis by blast
qed


text \<open>
  Last match wins: when the files after \<open>f\<close> declare no function \<open>F\<close> and carry no flag, the
  handler is built for the type of the last declaration of \<open>F\<close> in \<open>f\<close>.
\<close>

lemma generate_last_match:
  assumes "files (pkg g) = fs1 @ f # fs2"
    and "astFile f = Some (ds1 @ FuncDecl F [Field ns (Ident X)] # ds2)"
    and "\<not> list_ex (declares F) ds2"
    and "list_all (\<lambda>f. \<not> found f) fs2" and "\<not> list_ex (declaredIn F) fs2"
  shows "\<exists>g' l. generate e F a (g, out) = (g', out @ l) \<and>
                 buf g' = buf g @ handlerWrap (strings_ToUpper e) \<lparr>Func = F, EncodingPkg = a, T = X\<rparr>"
proof -
  from scanFiles_last_match [OF assms(2-5), of fs1 "(False, [])"] obtain fs' l where
    "scanFiles F (fs1 @ f # fs2) (False, []) = (fs', (True, X), l)" by blast
  with assms(1) have "generate e F a (g, out) = (build e F a X (g\<lparr>pkg := (pkg g)\<lparr>files := fs'\<rparr>\<rparr>), out @ l)"
    by (simp add: generate_def)
  then show ?thesis by (simp add: build_def)
qed

subsection \<open>The loops of \<open>main\<close>\<close>

lemma generate_undeclared_formats:
  assumes "unmarked (pkg g)" and "\<not> declared fName (pkg g)" and "encs \<noteq> []"
  shows "fold (\<lambda>enc. generate e fName (pkgName e enc)) encs (g, out) =
           (withFuncName fName g, out @ replicate (length encs) (notFound fName))"
  using assms
proof (induction encs arbitrary: g out)
  case Nil
  then show ?case by simp
next
  case (Cons enc encs)
  show ?case
  proof (cases "encs = []")
    case True
    with Cons.prems show ?thesis by (simp add: generate_undeclared)
  next
    case False
    with Cons.prems Cons.IH [of "withFuncName fName g" "out @ [notFound fName]"]
    show ?thesis
      by (simp add: generate_undeclared replicate_app_Cons_same)
  qed
qed

lemma generate_formats_unmatched:
  assumes "unmarked (pkg g)" and "\<not> matched fName (pkg g)"
  shows "\<exists>g' out'. fold (\<lambda>enc. generate e fName (pkgName e enc)) encs (g, out) = (g', out') \<and>
           buf g' = buf g \<and> unmarked (pkg g') \<and>
           (\<forall>m. matched m (pkg g') = matched m (pkg g)) \<and>
           (\<forall>m. declared m (pkg g') = declared m (pkg g))"
  using assms
proof (induction encs arbitrary: g out)
  case Nil
  then show ?case by simp
next
  case (Cons enc encs)
  from generate_unmatched [OF Cons.prems, where e = e and a = "pkgName e enc" and out = out] obtain l where
    l: "generate e fName (pkgName e enc) (g, out) = (withFuncName fName g, out @ l)" by blast
  from Cons.IH [of "withFuncName fName g" "out @ l"] Cons.prems obtain g' out' where
    "fold (\<lambda>enc. generate e fName (pkgName e enc)) encs (withFuncName fName g, out @ l) = (g', out')"
    "buf g' = buf g" "unmarked (pkg g')"
    "\<forall>m. matched m (pkg g') = matched m (pkg g)"
    "\<forall>m. declared m (pkg g') = declared m (pkg g)"
    by auto
  with l show ?case by simp
qed

lemma generateLoop_unmatched:
  assumes "unmarked (pkg g)" and "\<forall>m\<in>set ms. \<not> matched m (pkg g)"
  shows "\<exists>g' out'. generateLoop e ms encs (g, out) = (g', out') \<and>
           buf g' = buf g \<and> unmarked (pkg g') \<and>
           (\<forall>m. declared m (pkg g') = declared m (pkg g))"
  using assms
proof (induction ms arbitrary: g out)
  case Nil
  then show ?case by (simp add: generateLoop_def)
next
  case (Cons m ms)
  from generate_formats_unmatched [of g m e encs out] Cons.prems obtain g1 out1 where
    1: "fold (\<lambda>enc. generate e m (pkgName e enc)) encs (g, out) = (g1, out1)"
       "buf g1 = buf g" "unmarked (pkg g1)"
       "\<forall>m. matched m (pkg g1) = matched m (pkg g)"
       "\<forall>m. declared m (pkg g1) = declared m (pkg g)"
    by auto
  from Cons.IH [of g1 out1] 1 Cons.prems obtain g' out' where
    "generateLoop e ms encs (g1, out1) = (g', out')"
    "buf g' = buf g1" "unmarked (pkg g')" "\<forall>m. declared m (pkg g') = declared m (pkg g1)"
    by auto
  with 1 show ?case by (simp add: generateLoop_def)
qed



lemma importLoop_Some:
  "\<forall>enc\<in>set encs. Import e enc \<noteq> None \<Longrightarrow>
     importLoop e encs g = Some (g\<lparr>buf := buf g @ concat (map importLine encs)\<rparr>)"
  by (induction encs arbitrary: g) (auto simp: Printf_def)

lemma importLoop_SomeD:
  "importLoop e encs g = Some g' \<Longrightarrow>
     g' = g\<lparr>buf := buf g @ concat (map importLine encs)\<rparr> \<and> (\<forall>enc\<in>set encs. Import e enc \<noteq> None)"
proof (induction encs arbitrary: g)
  case Nil
  then show ?case by simp
next
  case (Cons enc encs)
  from Cons.prems obtain n where n: "Import e enc = Some n"
    by (auto split: option.splits)
  with Cons.prems have "importLoop e encs (Printf (importLine enc) g) = Some g'" by simp
  from Cons.IH [OF this] n show ?case by (simp add: Printf_def)
qed

lemma Split_nonempty: "Split s c \<noteq> []"
  by (induction s) (auto split: list.splits)

lemma parsePackage_unmarked: "parsePackage e d ns = Some p \<Longrightarrow> unmarked p"
  by (auto simp: parsePackage_def unmarked_def newFile_def list_all_iff
           split: option.splits list.splits if_splits)

lemma load_unmarked: "load e argl = Some (d, p) \<Longrightarrow> unmarked p"
  by (auto simp: load_def parsePackageDir_def parsePackageFiles_def
           split: option.splits if_splits bool.splits dest: parsePackage_unmarked)

lemma header_pkg [simp]: "pkg (header fl g) = pkg g"
  by (simp add: header_def Printf_def)

lemma main_exit_code_0:
  assumes "funcNames fl \<noteq> []" and "encodingPkgNames fl \<noteq> []"
    and "load e (mainArgs fl) = Some (d, p)"
    and "importLoop e (encodings fl) (header fl \<lparr>buf = [], pkg = p\<rparr>) = Some g0"
    and "\<forall>src. WriteFile e (outputName e fl d) src"
  shows "exit_code (main e fl) = 0"
  using assms by (simp add: main_def emit_def split: prod.splits)

text \<open>
  \<open>document\<close> is what the run formats and writes.
\<close>

lemma document_written:
  assumes "load e (mainArgs fl) = Some (d, p)" and "document e fl = Some doc"
  shows "written (main e fl) =
           (let src = (case Source e doc of Inl err \<Rightarrow> doc | Inr src \<Rightarrow> src)
            in if WriteFile e (outputName e fl d) src then Some (outputName e fl d, src)
               else None)"
  using assms
  by (auto simp: main_def document_def format_def Let_def split: if_splits option.splits sum.splits)

subsection \<open>The generated handler\<close>

text \<open>
  After a successful decode the handler calls the target function once, writes the
  second result as the status and encodes the first result.
\<close>

lemma handlerRun_success:
  "Decode body zero = (False, x) \<Longrightarrow>
     handlerRun Decode F zero body = [Call x, WriteHeader (snd (F x)), Encode (fst (F x))]"
  by (simp add: handlerRun_def split: prod.splits)

text \<open>
  C1. The claim: after a successful decode the first result of the target function is
  the status that is written and the second is the response that is encoded. The
  handler generated for \<open>PutJob\<close> binds the results the other way round
  (\<^verbatim>\<open>resp, s := PutJob(x)\<close>): when the target function returns \<open>(201, 7)\<close>, the handler
  writes the status 7 and encodes 201.
\<close>

theorem handler_writes_second_result_as_status:
  "handlerWrap asciiToUpper \<lparr>Func = ''PutJob'', EncodingPkg = ''json'', T = ''job''\<rparr> =
     ''\<newline>func PutJobHandlerJSON(w http.ResponseWriter, r *http.Request) {\<newline>'' @
     tab @ ''x := job{}\<newline>'' @
     tab @ ''err := json.NewDecoder(r.Body).Decode(&x)\<newline>'' @
     tab @ ''if err != nil {\<newline>'' @
     tab @ tab @ ''w.WriteHeader(http.StatusBadRequest)\<newline>'' @
     tab @ tab @ ''return\<newline>'' @
     tab @ ''}\<newline>'' @
     tab @ ''resp, s := PutJob(x)\<newline>'' @
     tab @ ''w.WriteHeader(s)\<newline>'' @
     tab @ ''json.NewEncoder(w).Encode(resp)\<newline>'' @
     ''}\<newline>'' \<and>
   handlerRun (\<lambda>body zero. (False, body)) (\<lambda>j. (201, 7)) [] ''job'' =
     [Call ''job'', WriteHeader 7, Encode (201::int)]"
  by (simp add: handlerRun_def handlerWrap_PutJob)

text \<open>
  The template renders exactly the text of the tree \<open>handlerFunc\<close>, so that is what \<open>build\<close>
  appends to the buffer; and running that tree does what \<open>handlerRun\<close> says.
\<close>

lemma handlerWrap_showFunc: "handlerWrap up h = showFunc (handlerFunc up h)"
  by (simp add: handlerWrap_def handlerName_def showFunc_def handlerFunc_def showExpr_def
        showArg_def indent_def numeral_2_eq_2)

lemma build_showFunc:
  "buf (build e fName a pfn g) =
     buf g @ showFunc (handlerFunc (strings_ToUpper e) \<lparr>Func = fName, EncodingPkg = a, T = pfn\<rparr>)"
  by (simp add: build_def handlerWrap_showFunc)

lemma runFunc_handlerRun:
  "runFunc w (handlerFunc up h) =
     Some (handlerRun (decoderOf w (EncodingPkg h)) (funcOf w (Func h)) (zeroOf w (T h)) (reqBody w))"
  by (auto simp: runFunc_def handlerFunc_def handlerRun_def execDefine_def split: prod.splits)

text \<open>
  C7. Every handler that \<open>build\<close> appends to the buffer is the printed form of
  \<open>handlerFunc\<close>; when decoding the request body into the zero value fails, running it
  writes the status 400 (bad request) and returns: that is all it does, and the target
  function is not called.
\<close>

theorem decode_failure_bad_request:
  assumes "fst (decoderOf w (EncodingPkg h) (reqBody w) (zeroOf w (T h)))"
  shows "buf (build e (Func h) (EncodingPkg h) (T h) g) =
           buf g @ showFunc (handlerFunc (strings_ToUpper e) h) \<and>
         runFunc w (handlerFunc (strings_ToUpper e) h) = Some [WriteHeader 400]"
proof -
  have "handlerRun (decoderOf w (EncodingPkg h)) (funcOf w (Func h)) (zeroOf w (T h)) (reqBody w) =
          [WriteHeader 400]"
    using assms
    by (cases "decoderOf w (EncodingPkg h) (reqBody w) (zeroOf w (T h))")
       (simp add: handlerRun_def StatusBadRequest_def)
  moreover have "handlerFunc up \<lparr>Func = Func h, EncodingPkg = EncodingPkg h, T = T h\<rparr> =
                 handlerFunc up h" for up
    by (simp add: handlerFunc_def)
  ultimately show ?thesis by (simp add: runFunc_handlerRun build_showFunc)
qed

theorem decode_failure_bad_request_witness:
  "runFunc
     \<lparr>reqBody = ''{'', zeroOf = (\<lambda>_. 0::nat), decoderOf = (\<lambda>_ b z. (True, z)),
      funcOf = (\<lambda>_ x. (x, 200))\<rparr>
     (handlerFunc asciiToUpper \<lparr>Func = ''PutJob'', EncodingPkg = ''json'', T = ''job''\<rparr>) =
     Some [WriteHeader 400] \<and>
   buf (build jober_env ''PutJob'' ''json'' ''job'' \<lparr>buf = [], pkg = jober_pkg\<rparr>) =
     showFunc (handlerFunc asciiToUpper \<lparr>Func = ''PutJob'', EncodingPkg = ''json'', T = ''job''\<rparr>)"
  using decode_failure_bad_request
    [of "\<lparr>reqBody = ''{'', zeroOf = (\<lambda>_. 0::nat), decoderOf = (\<lambda>_ b z. (True, z)),
          funcOf = (\<lambda>_ x. (x, 200))\<rparr>"
        "\<lparr>Func = ''PutJob'', EncodingPkg = ''json'', T = ''job''\<rparr>"
        jober_env "\<lparr>buf = [], pkg = jober_pkg\<rparr>"]
  by (simp add: jober_env_def)

subsection \<open>Names that no file declares\<close>

text \<open>
  C2, as amended. In a run on a freshly parsed package, let \<open>n\<close> be a requested name that
  no file declares, and let no name requested before it have a declaration that \<open>genDecl\<close>
  accepts. Then the requests before \<open>n\<close> leave the buffer as it was after the import lines,
  the request of \<open>n\<close> adds no handler and prints the line \<open>Func not found\<close> exactly once for
  every requested encoding, and the run ends with exit code 0 when the output file can be
  written.
\<close>

theorem undeclared_name_not_found:
  assumes "funcNames fl \<noteq> []" and "encodingPkgNames fl \<noteq> []"
    and "load e (mainArgs fl) = Some (d, p)"
    and "importLoop e (encodings fl) (header fl \<lparr>buf = [], pkg = p\<rparr>) = Some g0"
    and "funcs fl = pre @ n # post"
    and "\<forall>m\<in>set pre. \<not> matched m p" and "\<not> declared n p"
    and "\<forall>src. WriteFile e (outputName e fl d) src"
  shows "\<exists>g1 out1.
           generateLoop e pre (encodings fl) (g0, []) = (g1, out1) \<and>
           buf g1 = buf g0 \<and>
           generateLoop e [n] (encodings fl) (g1, out1) =
             (withFuncName n g1, out1 @ replicate (length (encodings fl)) (notFound n)) \<and>
           buf (withFuncName n g1) = buf g0 \<and>
           emit e fl p =
             Some (generateLoop e post (encodings fl)
                     (withFuncName n g1,
                      out1 @ replicate (length (encodings fl)) (notFound n))) \<and>
           exit_code (main e fl) = 0"
proof -
  from assms(4) have g0: "pkg g0 = p"
    by (auto dest!: importLoop_SomeD)
  have u: "unmarked (pkg g0)" using load_unmarked [OF assms(3)] g0 by simp
  have ne: "encodings fl \<noteq> []" by (simp add: encodings_def Split_nonempty)
  from generateLoop_unmatched [of g0 pre e "encodings fl" "[]"] u assms(6) g0 obtain g1 out1 where
    1: "generateLoop e pre (encodings fl) (g0, []) = (g1, out1)" "buf g1 = buf g0"
       "unmarked (pkg g1)" "\<forall>m. declared m (pkg g1) = declared m (pkg g0)"
    by auto
  with assms(7) g0 have "\<not> declared n (pkg g1)" by simp
  with 1(3) ne have 2: "generateLoop e [n] (encodings fl) (g1, out1) =
      (withFuncName n g1, out1 @ replicate (length (encodings fl)) (notFound n))"
    by (simp add: generateLoop_def generate_undeclared_formats)
  have "generateLoop e (pre @ n # post) (encodings fl) (g0, []) =
          generateLoop e post (encodings fl)
            (generateLoop e [n] (encodings fl) (generateLoop e pre (encodings fl) (g0, [])))"
    by (simp add: generateLoop_def)
  with 1(1) 2 assms(4,5) have 3: "emit e fl p =
      Some (generateLoop e post (encodings fl)
              (withFuncName n g1, out1 @ replicate (length (encodings fl)) (notFound n)))"
    by (simp add: emit_def)
  have 4: "exit_code (main e fl) = 0"
    using assms(1,2,3,4,8) by (rule main_exit_code_0)
  have 5: "buf (withFuncName n g1) = buf g0" using 1(2) by simp
  from 1(1,2) 2 3 4 5 show ?thesis by blast
qed

theorem undeclared_name_not_found_witness:
  "\<exists>g1 out1.
      generateLoop jober_env [''Import''] [''encoding/json'', ''encoding/xml'']
        (\<lparr>buf = buf (header (cmdline ''Import,Missing,PutJob'' ''encoding/json,encoding/xml'')
                        \<lparr>buf = [], pkg = jober_pkg\<rparr>) @
                 importLine ''encoding/json'' @ importLine ''encoding/xml'',
           pkg = jober_pkg\<rparr>, []) = (g1, out1) \<and>
      generateLoop jober_env [''Missing''] [''encoding/json'', ''encoding/xml''] (g1, out1) =
        (withFuncName ''Missing'' g1, out1 @ [notFound ''Missing'', notFound ''Missing'']) \<and>
      exit_code (main jober_env (cmdline ''Import,Missing,PutJob'' ''encoding/json,encoding/xml'')) = 0"
proof -
  let ?fl = "cmdline ''Import,Missing,PutJob'' ''encoding/json,encoding/xml''"
  let ?g0 = "\<lparr>buf = buf (header ?fl \<lparr>buf = [], pkg = jober_pkg\<rparr>) @
                    importLine ''encoding/json'' @ importLine ''encoding/xml'',
              pkg = jober_pkg\<rparr>"
  have 1: "funcNames ?fl \<noteq> []" "encodingPkgNames ?fl \<noteq> []" by (simp_all add: cmdline_def)
  have 2: "importLoop jober_env (encodings ?fl) (header ?fl \<lparr>buf = [], pkg = jober_pkg\<rparr>) = Some ?g0"
    by (simp add: encodings_def cmdline_def jober_env_def header_def Printf_def)
  have 3: "funcs ?fl = [''Import''] @ ''Missing'' # [''PutJob'']"
    by (simp add: funcs_def cmdline_def)
  have 4: "\<forall>m\<in>set [''Import'']. \<not> matched m jober_pkg"
    by (simp add: matched_def matchedIn_def matches_def jober_pkg_def newFile_def jober_go_def)
  have 5: "\<not> declared ''Missing'' jober_pkg"
    by (simp add: declared_def declaredIn_def declares_def jober_pkg_def newFile_def jober_go_def)
  have 6: "\<forall>src. WriteFile jober_env (outputName jober_env ?fl ''.'') src"
    by (simp add: jober_env_def)
  have 7: "encodings ?fl = [''encoding/json'', ''encoding/xml'']"
    by (simp add: encodings_def cmdline_def)
  from undeclared_name_not_found [OF 1 load_jober 2 3 4 5 6]
  show ?thesis unfolding 7 by (auto simp: numeral_2_eq_2)
qed

text \<open>
  C2 as stated asks for exactly one diagnostic for the name. With two encodings the name
  \<open>Missing\<close>, which the package does not declare, is reported twice.
\<close>

theorem not_found_once_per_encoding:
  "\<not> declared ''Missing'' jober_pkg \<and>
   load jober_env (mainArgs (cmdline ''Missing'' ''encoding/json,encoding/xml'')) =
     Some (''.'', jober_pkg) \<and>
   events (main jober_env (cmdline ''Missing'' ''encoding/json,encoding/xml'')) =
     [FmtPrintf ''Func not found: Missing'', FmtPrintf ''Func not found: Missing''] \<and>
   exit_code (main jober_env (cmdline ''Missing'' ''encoding/json,encoding/xml'')) = 0"
  by (simp add: eval_defs declared_def declaredIn_def declares_def)

subsection \<open>Import lines\<close>




subsection \<open>Handlers of one function\<close>

text \<open>
  A walk changes a file by setting its type and its flag, or not at all, and which of the
  two depends on the declarations and on the requested name only. So a second walk for the
  same name changes nothing and logs the same.
\<close>

lemma genDecl_shape:
  "\<exists>b l. (\<forall>f. funcName f = F \<longrightarrow> genDecl d f = (b, f, l)) \<or>
         (\<exists>t. \<forall>f. funcName f = F \<longrightarrow>
                genDecl d f = (b, f\<lparr>paramfullname := t, found := True\<rparr>, l))"
proof (cases d)
  case GenDecl
  then have "\<forall>f. funcName f = F \<longrightarrow> genDecl d f = (True, f, [])"
    by (simp add: genDecl_def)
  then show ?thesis by blast
next
  case (FuncDecl n ps)
  show ?thesis
  proof (cases "n = F \<and> length ps = 1")
    case False
    show ?thesis
    proof (cases "n = F")
      case True
      with False FuncDecl have
        "\<forall>f. funcName f = F \<longrightarrow>
           genDecl d f =
             (False, f,
              [LogPrintf (F @ '' should take only one parameter, found '' @
                          string_of_nat (length ps) @ '' instead'')])"
        by (simp add: genDecl_def)
      then show ?thesis by blast
    next
      case False
      with FuncDecl have "\<forall>f. funcName f = F \<longrightarrow> genDecl d f = (False, f, [])"
        by (simp add: genDecl_def)
      then show ?thesis by blast
    qed
  next
    case True
    show ?thesis
    proof (cases "Type (ps ! 0)")
      case (Ident v)
      with True FuncDecl have
        "\<forall>f. funcName f = F \<longrightarrow> genDecl d f = (False, f\<lparr>paramfullname := v, found := True\<rparr>, [])"
        by (simp add: genDecl_def)
      then show ?thesis by blast
    next
      case (SelectorExpr x sel)
      with True FuncDecl have
        "\<forall>f. funcName f = F \<longrightarrow>
           genDecl d f = (False, f\<lparr>paramfullname := x @ ''.'' @ sel, found := True\<rparr>, [])"
        by (simp add: genDecl_def)
      then show ?thesis by blast
    next
      case (OtherExpr v)
      with True FuncDecl have
        "\<forall>f. funcName f = F \<longrightarrow>
           genDecl d f =
             (False, f, [LogPrintf (''Could not guess var full name, type not expected: '' @ v)])"
        by (simp add: genDecl_def)
      then show ?thesis by blast
    qed
  qed
qed

lemma Inspect_shape:
  "\<exists>l. (\<forall>f. funcName f = F \<longrightarrow> Inspect ds f = (f, l)) \<or>
       (\<exists>t. \<forall>f. funcName f = F \<longrightarrow> Inspect ds f = (f\<lparr>paramfullname := t, found := True\<rparr>, l))"
proof (induction ds)
  case Nil
  have "\<forall>f. funcName f = F \<longrightarrow> Inspect [] f = (f, [])" by simp
  then show ?case by blast
next
  case (Cons d ds)
  from genDecl_shape [of F d] obtain b l1 where
    g: "(\<forall>f. funcName f = F \<longrightarrow> genDecl d f = (b, f, l1)) \<or>
        (\<exists>t. \<forall>f. funcName f = F \<longrightarrow>
               genDecl d f = (b, f\<lparr>paramfullname := t, found := True\<rparr>, l1))"
    by blast
  from Cons.IH obtain l2 where
    i: "(\<forall>f. funcName f = F \<longrightarrow> Inspect ds f = (f, l2)) \<or>
        (\<exists>t. \<forall>f. funcName f = F \<longrightarrow>
               Inspect ds f = (f\<lparr>paramfullname := t, found := True\<rparr>, l2))"
    by blast
  from g show ?case
  proof
    assume g1: "\<forall>f. funcName f = F \<longrightarrow> genDecl d f = (b, f, l1)"
    from i show ?thesis
    proof
      assume "\<forall>f. funcName f = F \<longrightarrow> Inspect ds f = (f, l2)"
      with g1 have "\<forall>f. funcName f = F \<longrightarrow> Inspect (d # ds) f = (f, l1 @ l2)" by simp
      then show ?thesis by blast
    next
      assume "\<exists>t. \<forall>f. funcName f = F \<longrightarrow>
                Inspect ds f = (f\<lparr>paramfullname := t, found := True\<rparr>, l2)"
      then obtain t where
        "\<forall>f. funcName f = F \<longrightarrow> Inspect ds f = (f\<lparr>paramfullname := t, found := True\<rparr>, l2)"
        by blast
      with g1 have "\<forall>f. funcName f = F \<longrightarrow>
          Inspect (d # ds) f = (f\<lparr>paramfullname := t, found := True\<rparr>, l1 @ l2)" by simp
      then show ?thesis by blast
    qed
  next
    assume "\<exists>t. \<forall>f. funcName f = F \<longrightarrow>
              genDecl d f = (b, f\<lparr>paramfullname := t, found := True\<rparr>, l1)"
    then obtain t1 where
      g2: "\<forall>f. funcName f = F \<longrightarrow>
             genDecl d f = (b, f\<lparr>paramfullname := t1, found := True\<rparr>, l1)"
      by blast
    from i show ?thesis
    proof
      assume "\<forall>f. funcName f = F \<longrightarrow> Inspect ds f = (f, l2)"
      with g2 have "\<forall>f. funcName f = F \<longrightarrow>
          Inspect (d # ds) f = (f\<lparr>paramfullname := t1, found := True\<rparr>, l1 @ l2)" by simp
      then show ?thesis by blast
    next
      assume "\<exists>t. \<forall>f. funcName f = F \<longrightarrow>
                Inspect ds f = (f\<lparr>paramfullname := t, found := True\<rparr>, l2)"
      then obtain t where
        "\<forall>f. funcName f = F \<longrightarrow> Inspect ds f = (f\<lparr>paramfullname := t, found := True\<rparr>, l2)"
        by blast
      with g2 have "\<forall>f. funcName f = F \<longrightarrow>
          Inspect (d # ds) f = (f\<lparr>paramfullname := t, found := True\<rparr>, l1 @ l2)" by simp
      then show ?thesis by blast
    qed
  qed
qed

lemma Inspect_idem:
  assumes "Inspect ds f = (f', l)"
  shows "Inspect ds f' = (f', l)"
proof -
  have fn: "funcName f' = funcName f" using Inspect_keeps [OF assms] by simp
  from Inspect_shape [of "funcName f" ds] obtain l0 where
    "(\<forall>f0. funcName f0 = funcName f \<longrightarrow> Inspect ds f0 = (f0, l0)) \<or>
     (\<exists>t. \<forall>f0. funcName f0 = funcName f \<longrightarrow>
            Inspect ds f0 = (f0\<lparr>paramfullname := t, found := True\<rparr>, l0))"
    by blast
  then show ?thesis
  proof
    assume a: "\<forall>f0. funcName f0 = funcName f \<longrightarrow> Inspect ds f0 = (f0, l0)"
    with assms have "f' = f" "l = l0" by auto
    with assms show ?thesis by simp
  next
    assume "\<exists>t. \<forall>f0. funcName f0 = funcName f \<longrightarrow>
              Inspect ds f0 = (f0\<lparr>paramfullname := t, found := True\<rparr>, l0)"
    then obtain t where
      a: "\<forall>f0. funcName f0 = funcName f \<longrightarrow>
            Inspect ds f0 = (f0\<lparr>paramfullname := t, found := True\<rparr>, l0)"
      by blast
    with assms have f': "f' = f\<lparr>paramfullname := t, found := True\<rparr>" and l: "l = l0" by auto
    from a fn have "Inspect ds f' = (f'\<lparr>paramfullname := t, found := True\<rparr>, l0)" by simp
    with f' l show ?thesis by simp
  qed
qed

lemma scanFiles_idem:
  "scanFiles F fs acc = (fs', acc', l) \<Longrightarrow> scanFiles F fs' acc = (fs', acc', l)"
proof (induction fs arbitrary: acc fs' acc' l)
  case Nil
  then show ?case by auto
next
  case (Cons f fs)
  show ?case
  proof (cases "astFile f")
    case None
    with Cons.prems obtain fs2 where s: "scanFiles F fs acc = (fs2, acc', l)"
      and fs': "fs' = f\<lparr>funcName := F\<rparr> # fs2"
      by (auto split: prod.splits)
    from Cons.IH [OF s] fs' None show ?thesis by simp
  next
    case (Some ds)
    obtain f1 l1 where i: "Inspect ds (f\<lparr>funcName := F\<rparr>) = (f1, l1)"
      by (cases "Inspect ds (f\<lparr>funcName := F\<rparr>)") auto
    let ?acc1 = "if found f1 then (True, paramfullname f1) else acc"
    from Cons.prems Some i obtain fs2 l2 where s: "scanFiles F fs ?acc1 = (fs2, acc', l2)"
      and fs': "fs' = f1 # fs2" and l: "l = l1 @ l2"
      by (auto split: prod.splits)
    have k: "astFile f1 = Some ds" "f1\<lparr>funcName := F\<rparr> = f1"
      using Inspect_keeps [OF i] Some by simp_all
    from Inspect_idem [OF i] Cons.IH [OF s] k fs' l show ?thesis by simp
  qed
qed

lemma build_files [simp]: "pkg (build e F a T0 g) = pkg g"
  by (simp add: build_def)

lemma generate_scanned:
  assumes "scanFiles F (files (pkg g)) (False, []) = (files (pkg g), (True, T0), l)"
  shows "generate e F a (g, out) = (build e F a T0 g, out @ l)"
  using assms by (simp add: generate_def)

lemma generate_formats_scanned:
  assumes "scanFiles F (files (pkg g)) (False, []) = (files (pkg g), (True, T0), l)"
  shows "fold (\<lambda>enc. generate e F (pkgName e enc)) encs (g, out) =
           (fold (\<lambda>enc. build e F (pkgName e enc) T0) encs g,
            out @ concat (replicate (length encs) l))"
  using assms
proof (induction encs arbitrary: g out)
  case Nil
  then show ?case by simp
next
  case (Cons enc encs)
  have "scanFiles F (files (pkg (build e F (pkgName e enc) T0 g))) (False, []) =
          (files (pkg (build e F (pkgName e enc) T0 g)), (True, T0), l)"
    using Cons.prems by simp
  from Cons.IH [OF this, of "out @ l"] Cons.prems show ?case
    by (simp add: generate_scanned)
qed

lemma fold_build_buf:
  "buf (fold (\<lambda>enc. build e F (pkgName e enc) T0) encs g) =
     buf g @
     concat (map (\<lambda>enc. showFunc (handlerFunc (strings_ToUpper e)
                            \<lparr>Func = F, EncodingPkg = pkgName e enc, T = T0\<rparr>)) encs)"
  by (induction encs arbitrary: g) (simp_all add: build_showFunc)

lemma distinct_prefixed:
  "distinct (map (\<lambda>enc. (c::string) @ U enc) encs) \<longleftrightarrow> distinct (map U encs)"
proof -
  have "distinct (map ((@) c) ys) = distinct ys" for ys :: "string list"
    by (simp add: distinct_map inj_on_def)
  from this [of "map U encs"] show ?thesis by (simp add: comp_def)
qed

text \<open>
  Lines of a text. A handler rendered from names without line breaks has exactly one line
  that starts a function declaration.
\<close>

lemma Split_append_sep: "Split (xs @ sep # ys) sep = Split xs sep @ Split ys sep"
proof (induction xs)
  case Nil
  then show ?case by simp
next
  case (Cons c cs)
  have "Split cs sep \<noteq> []" by (rule Split_nonempty)
  then obtain w ws where "Split cs sep = w # ws" by (cases "Split cs sep") auto
  with Cons show ?case by simp
qed

lemma Split_no_sep: "sep \<notin> set s \<Longrightarrow> Split s sep = [s]"
  by (induction s) auto

lemma Split_lines:
  "\<forall>ln\<in>set lns. sep \<notin> set ln \<Longrightarrow>
     Split (concat (map (\<lambda>ln. ln @ [sep]) lns)) sep = lns @ [[]]"
proof (induction lns)
  case Nil
  then show ?case by simp
next
  case (Cons ln lns)
  have "Split ((ln @ [sep]) @ concat (map (\<lambda>ln. ln @ [sep]) lns)) sep =
          Split ln sep @ Split (concat (map (\<lambda>ln. ln @ [sep]) lns)) sep"
    using Split_append_sep [of ln sep "concat (map (\<lambda>ln. ln @ [sep]) lns)"] by simp
  with Cons show ?case by (simp add: Split_no_sep)
qed

lemma countFuncDecls_append:
  "countFuncDecls (a @ CHR ''\<newline>'' # b) = countFuncDecls a + countFuncDecls b"
  by (simp add: countFuncDecls_def Split_append_sep)

lemma handlerWrap_lines:
  "handlerWrap up h =
     CHR ''\<newline>'' #
     concat (map (\<lambda>ln. ln @ [CHR ''\<newline>''])
       [''func '' @ handlerName up h @ ''(w http.ResponseWriter, r *http.Request) {'',
        tab @ ''x := '' @ T h @ ''{}'',
        tab @ ''err := '' @ EncodingPkg h @ ''.NewDecoder(r.Body).Decode(&x)'',
        tab @ ''if err != nil {'',
        tab @ tab @ ''w.WriteHeader(http.StatusBadRequest)'',
        tab @ tab @ ''return'',
        tab @ ''}'',
        tab @ ''resp, s := '' @ Func h @ ''(x)'',
        tab @ ''w.WriteHeader(s)'',
        tab @ EncodingPkg h @ ''.NewEncoder(w).Encode(resp)'',
        ''}''])"
  by (simp add: handlerWrap_def)

lemma countFuncDecls_handlerWrap:
  assumes "oneLine (Func h)" and "oneLine (EncodingPkg h)" and "oneLine (up (EncodingPkg h))"
    and "oneLine (T h)"
  shows "\<exists>b. handlerWrap up h = CHR ''\<newline>'' # b \<and> countFuncDecls b = 1"
proof -
  let ?lns = "[''func '' @ handlerName up h @ ''(w http.ResponseWriter, r *http.Request) {'',
        tab @ ''x := '' @ T h @ ''{}'',
        tab @ ''err := '' @ EncodingPkg h @ ''.NewDecoder(r.Body).Decode(&x)'',
        tab @ ''if err != nil {'',
        tab @ tab @ ''w.WriteHeader(http.StatusBadRequest)'',
        tab @ tab @ ''return'',
        tab @ ''}'',
        tab @ ''resp, s := '' @ Func h @ ''(x)'',
        tab @ ''w.WriteHeader(s)'',
        tab @ EncodingPkg h @ ''.NewEncoder(w).Encode(resp)'',
        ''}'']"
  have "\<forall>ln\<in>set ?lns. CHR ''\<newline>'' \<notin> set ln"
    using assms by (simp add: oneLine_def handlerName_def tab_def)
  then have "Split (concat (map (\<lambda>ln. ln @ [CHR ''\<newline>'']) ?lns)) (CHR ''\<newline>'') = ?lns @ [[]]"
    by (rule Split_lines)
  then have "countFuncDecls (concat (map (\<lambda>ln. ln @ [CHR ''\<newline>'']) ?lns)) = 1"
    by (simp add: countFuncDecls_def tab_def)
  with handlerWrap_lines [of up h] show ?thesis by blast
qed

lemma countFuncDecls_handlers:
  assumes "\<forall>h\<in>set hs. oneLine (Func h) \<and> oneLine (EncodingPkg h) \<and> oneLine (up (EncodingPkg h)) \<and>
             oneLine (T h)"
  shows "countFuncDecls (a @ concat (map (handlerWrap up) hs)) = countFuncDecls a + length hs"
  using assms
proof (induction hs arbitrary: a)
  case Nil
  then show ?case by simp
next
  case (Cons h hs)
  from countFuncDecls_handlerWrap [of h up] Cons.prems obtain b where
    b: "handlerWrap up h = CHR ''\<newline>'' # b" "countFuncDecls b = 1" by auto
  have "countFuncDecls ((a @ handlerWrap up h) @ concat (map (handlerWrap up) hs)) =
          countFuncDecls (a @ handlerWrap up h) + length hs"
    using Cons.prems by (intro Cons.IH) simp
  moreover have "countFuncDecls (a @ handlerWrap up h) = countFuncDecls a + 1"
    using b by (simp add: countFuncDecls_append)
  ultimately show ?case by simp
qed

text \<open>
  C4, as amended. Let some file declare \<open>F\<close> with one parameter field of a local type, and
  let \<open>T0\<close> be the type that the walk for \<open>F\<close> yields. Requesting \<open>F\<close> for \<open>N\<close> encodings runs
  \<open>build\<close> exactly once per encoding and appends the \<open>N\<close> handlers for \<open>F\<close>, the name of the
  package of the encoding and \<open>T0\<close>, in the order of the encodings; when the names have no
  line break, the buffer gains exactly \<open>N\<close> function declarations. The name of each handler
  is \<open>F\<close>, then \<open>Handler\<close>, then the name of the package of the encoding in upper case, and
  the names are pairwise distinct exactly when these upper-cased package names are.
\<close>

theorem one_adapter_per_format:
  assumes "hasDecl (FuncDecl F [Field ns (Ident t)]) (pkg g)"
    and "scanFiles F (files (pkg g)) (False, []) = (fs', (fnd, T0), l)"
  shows "fnd \<and>
         (encs \<noteq> [] \<longrightarrow>
            generateLoop e [F] encs (g, out) =
              (fold (\<lambda>enc. build e F (pkgName e enc) T0) encs (g\<lparr>pkg := (pkg g)\<lparr>files := fs'\<rparr>\<rparr>),
               out @ concat (replicate (length encs) l))) \<and>
         buf (fst (generateLoop e [F] encs (g, out))) =
           buf g @
           concat (map (\<lambda>enc. showFunc (handlerFunc (strings_ToUpper e)
                                  \<lparr>Func = F, EncodingPkg = pkgName e enc, T = T0\<rparr>)) encs) \<and>
         map (\<lambda>enc. fname (handlerFunc (strings_ToUpper e)
                          \<lparr>Func = F, EncodingPkg = pkgName e enc, T = T0\<rparr>)) encs =
           map (\<lambda>enc. F @ ''Handler'' @ strings_ToUpper e (pkgName e enc)) encs \<and>
         (distinct (map (\<lambda>enc. fname (handlerFunc (strings_ToUpper e)
                                   \<lparr>Func = F, EncodingPkg = pkgName e enc, T = T0\<rparr>)) encs) \<longleftrightarrow>
          distinct (map (\<lambda>enc. strings_ToUpper e (pkgName e enc)) encs)) \<and>
         (oneLine F \<and> oneLine T0 \<and>
          (\<forall>enc\<in>set encs. oneLine (pkgName e enc) \<and>
                           oneLine (strings_ToUpper e (pkgName e enc))) \<longrightarrow>
          countFuncDecls (buf (fst (generateLoop e [F] encs (g, out)))) =
            countFuncDecls (buf g) + length encs)"
proof -
  from assms(1) obtain f ds where "f \<in> set (files (pkg g))" "astFile f = Some ds"
    "FuncDecl F [Field ns (Ident t)] \<in> set ds"
    by (auto simp: hasDecl_def list_ex_iff split: option.splits)
  from scanFiles_found [OF this assms(2)] have fnd: fnd .
  let ?g' = "g\<lparr>pkg := (pkg g)\<lparr>files := fs'\<rparr>\<rparr>"
  have scanned: "scanFiles F (files (pkg ?g')) (False, []) = (files (pkg ?g'), (True, T0), l)"
    using scanFiles_idem [OF assms(2)] fnd by simp
  have loop: "generateLoop e [F] encs (g, out) =
      (fold (\<lambda>enc. build e F (pkgName e enc) T0) encs ?g',
       out @ concat (replicate (length encs) l))" if "encs \<noteq> []"
  proof -
    from that obtain enc encs' where encs: "encs = enc # encs'" by (cases encs) auto
    have first: "generate e F (pkgName e enc) (g, out) = (build e F (pkgName e enc) T0 ?g', out @ l)"
      using assms(2) fnd by (simp add: generate_def)
    have "scanFiles F (files (pkg (build e F (pkgName e enc) T0 ?g'))) (False, []) =
            (files (pkg (build e F (pkgName e enc) T0 ?g')), (True, T0), l)"
      using scanned by simp
    from generate_formats_scanned [OF this, of e encs' "out @ l"] first encs
    show ?thesis by (simp add: generateLoop_def)
  qed
  have bufeq: "buf (fst (generateLoop e [F] encs (g, out))) =
           buf g @
           concat (map (\<lambda>enc. showFunc (handlerFunc (strings_ToUpper e)
                                  \<lparr>Func = F, EncodingPkg = pkgName e enc, T = T0\<rparr>)) encs)"
  proof (cases "encs = []")
    case True
    then show ?thesis by (simp add: generateLoop_def)
  next
    case False
    from loop [OF this] show ?thesis by (simp add: fold_build_buf)
  qed
  have names: "map (\<lambda>enc. fname (handlerFunc (strings_ToUpper e)
                          \<lparr>Func = F, EncodingPkg = pkgName e enc, T = T0\<rparr>)) encs =
           map (\<lambda>enc. F @ ''Handler'' @ strings_ToUpper e (pkgName e enc)) encs"
    by (simp add: handlerFunc_def)
  have dist: "distinct (map (\<lambda>enc. fname (handlerFunc (strings_ToUpper e)
                                   \<lparr>Func = F, EncodingPkg = pkgName e enc, T = T0\<rparr>)) encs) \<longleftrightarrow>
          distinct (map (\<lambda>enc. strings_ToUpper e (pkgName e enc)) encs)"
    using distinct_prefixed [of "F @ ''Handler''" "\<lambda>enc. strings_ToUpper e (pkgName e enc)" encs]
    by (simp add: handlerFunc_def)
  have count: "countFuncDecls (buf (fst (generateLoop e [F] encs (g, out)))) =
            countFuncDecls (buf g) + length encs"
    if "oneLine F" "oneLine T0"
      "\<forall>enc\<in>set encs. oneLine (pkgName e enc) \<and> oneLine (strings_ToUpper e (pkgName e enc))"
  proof -
    let ?hs = "map (\<lambda>enc. \<lparr>Func = F, EncodingPkg = pkgName e enc, T = T0\<rparr>) encs"
    have "buf (fst (generateLoop e [F] encs (g, out))) =
            buf g @ concat (map (handlerWrap (strings_ToUpper e)) ?hs)"
      using bufeq by (simp add: handlerWrap_showFunc comp_def)
    moreover have "countFuncDecls (buf g @ concat (map (handlerWrap (strings_ToUpper e)) ?hs)) =
            countFuncDecls (buf g) + length ?hs"
      using that by (intro countFuncDecls_handlers) auto
    ultimately show ?thesis by simp
  qed
  from fnd loop bufeq names dist count show ?thesis by blast
qed

theorem one_adapter_per_format_witness:
  "buf (fst (generateLoop jober_env [''PutJob''] [''encoding/json'', ''encoding/xml'']
               (\<lparr>buf = [], pkg = jober_pkg\<rparr>, []))) =
     showFunc (handlerFunc asciiToUpper \<lparr>Func = ''PutJob'', EncodingPkg = ''json'', T = ''job''\<rparr>) @
     showFunc (handlerFunc asciiToUpper \<lparr>Func = ''PutJob'', EncodingPkg = ''xml'', T = ''job''\<rparr>) \<and>
   map (\<lambda>enc. fname (handlerFunc asciiToUpper
                 \<lparr>Func = ''PutJob'', EncodingPkg = pkgName jober_env enc, T = ''job''\<rparr>))
     [''encoding/json'', ''encoding/xml''] =
     [''PutJobHandlerJSON'', ''PutJobHandlerXML''] \<and>
   countFuncDecls (buf (fst (generateLoop jober_env [''PutJob''] [''encoding/json'', ''encoding/xml'']
                              (\<lparr>buf = [], pkg = jober_pkg\<rparr>, [])))) = 2"
proof -
  let ?g = "\<lparr>buf = [], pkg = jober_pkg\<rparr>"
  let ?encs = "[''encoding/json'', ''encoding/xml'']"
  let ?f' = "(newFile (''jober'', jober_go))
               \<lparr>funcName := ''PutJob'', paramfullname := ''job'', found := True\<rparr>"
  have h: "hasDecl (FuncDecl ''PutJob'' [Field [''j''] (Ident ''job'')]) (pkg ?g)"
    by (simp add: hasDecl_def jober_pkg_def newFile_def jober_go_def)
  have s: "scanFiles ''PutJob'' (files (pkg ?g)) (False, []) = ([?f'], (True, ''job''), [])"
    by (simp add: jober_pkg_def newFile_def jober_go_def genDecl_def)
  have up: "strings_ToUpper jober_env = asciiToUpper" by (simp add: jober_env_def)
  have names: "map (\<lambda>enc. ''PutJob'' @ ''Handler'' @ asciiToUpper (pkgName jober_env enc)) ?encs =
                 [''PutJobHandlerJSON'', ''PutJobHandlerXML'']"
    by (simp add: pkgName_def jober_env_def asciiToUpper_def upper_char_def)
  have pk: "pkgName jober_env ''encoding/json'' = ''json''" "pkgName jober_env ''encoding/xml'' = ''xml''"
    by (simp_all add: pkgName_def jober_env_def)
  note inst = one_adapter_per_format [OF h s, of ?encs jober_env "[]"]
  from inst have "buf (fst (generateLoop jober_env [''PutJob''] ?encs (?g, []))) =
      buf ?g @
      concat (map (\<lambda>enc. showFunc (handlerFunc (strings_ToUpper jober_env)
                             \<lparr>Func = ''PutJob'', EncodingPkg = pkgName jober_env enc, T = ''job''\<rparr>))
                ?encs)"
    by blast
  then have b: "buf (fst (generateLoop jober_env [''PutJob''] ?encs (?g, []))) =
     showFunc (handlerFunc asciiToUpper \<lparr>Func = ''PutJob'', EncodingPkg = ''json'', T = ''job''\<rparr>) @
     showFunc (handlerFunc asciiToUpper \<lparr>Func = ''PutJob'', EncodingPkg = ''xml'', T = ''job''\<rparr>)"
    by (simp add: up pk)
  from inst have "map (\<lambda>enc. fname (handlerFunc (strings_ToUpper jober_env)
                          \<lparr>Func = ''PutJob'', EncodingPkg = pkgName jober_env enc, T = ''job''\<rparr>)) ?encs =
           map (\<lambda>enc. ''PutJob'' @ ''Handler'' @ strings_ToUpper jober_env (pkgName jober_env enc)) ?encs"
    by blast
  with names have n: "map (\<lambda>enc. fname (handlerFunc asciiToUpper
                 \<lparr>Func = ''PutJob'', EncodingPkg = pkgName jober_env enc, T = ''job''\<rparr>)) ?encs =
     [''PutJobHandlerJSON'', ''PutJobHandlerXML'']"
    by (simp only: up)
  have ol: "oneLine ''PutJob''" "oneLine ''job''"
    "\<forall>enc\<in>set ?encs. oneLine (pkgName jober_env enc) \<and>
                      oneLine (strings_ToUpper jober_env (pkgName jober_env enc))"
    by (simp_all add: oneLine_def pk up asciiToUpper_def upper_char_def)
  from inst have
    "oneLine ''PutJob'' \<and> oneLine ''job'' \<and>
     (\<forall>enc\<in>set ?encs. oneLine (pkgName jober_env enc) \<and>
                       oneLine (strings_ToUpper jober_env (pkgName jober_env enc))) \<longrightarrow>
     countFuncDecls (buf (fst (generateLoop jober_env [''PutJob''] ?encs (?g, [])))) =
       countFuncDecls (buf ?g) + length ?encs"
    by blast
  with ol have "countFuncDecls (buf (fst (generateLoop jober_env [''PutJob''] ?encs (?g, [])))) =
       countFuncDecls (buf ?g) + length ?encs"
    by blast
  then have c: "countFuncDecls (buf (fst (generateLoop jober_env [''PutJob''] ?encs (?g, [])))) = 2"
    by (simp add: countFuncDecls_def)
  from b n c show ?thesis by blast
qed

text \<open>
  C4 as stated asks for distinct names whenever the encodings are distinct. The packages
  \<open>encoding/json\<close> and \<open>vendor/json\<close> are both named \<open>json\<close>: both handlers are called
  \<open>PutJobHandlerJSON\<close>.
\<close>

theorem same_package_name_same_handler_name:
  "''encoding/json'' \<noteq> ''vendor/json'' \<and>
   document jober_env (cmdline ''PutJob'' ''encoding/json,vendor/json'') =
     Some (buf (header (cmdline ''PutJob'' ''encoding/json,vendor/json'')
                  \<lparr>buf = [], pkg = jober_pkg\<rparr>) @
           importLine ''encoding/json'' @ importLine ''vendor/json'' @
           handlerWrap asciiToUpper \<lparr>Func = ''PutJob'', EncodingPkg = ''json'', T = ''job''\<rparr> @
           handlerWrap asciiToUpper \<lparr>Func = ''PutJob'', EncodingPkg = ''json'', T = ''job''\<rparr>) \<and>
   handlerName asciiToUpper \<lparr>Func = ''PutJob'', EncodingPkg = ''json'', T = ''job''\<rparr> = ''PutJobHandlerJSON''"
  by (simp add: eval_defs handlerName_def asciiToUpper_def upper_char_def)

subsection \<open>Flags left by an earlier request\<close>

text \<open>
  C5. The claim: the type of the handler is resolved from the last file that contains a
  match for the requested name. In the package \<open>store\<close> the last file declaring \<open>Put\<close> is
  \<open>b.go\<close>, with the type \<open>Y\<close>, and a run that requests \<open>Put\<close> alone uses \<open>Y\<close>. When \<open>Get\<close>,
  declared in the later file \<open>c.go\<close>, is requested first, that file keeps its \<open>found\<close> flag
  and its type \<open>Z\<close>, and the handler of \<open>Put\<close> is built for \<open>Z\<close>.
\<close>

theorem stale_flag_overrides_last_match:
  "document store_env (cmdline ''Put'' ''encoding/json'') =
     Some (buf (header (cmdline ''Put'' ''encoding/json'') \<lparr>buf = [], pkg = store_pkg\<rparr>) @
           importLine ''encoding/json'' @
           handlerWrap asciiToUpper \<lparr>Func = ''Put'', EncodingPkg = ''json'', T = ''Y''\<rparr>) \<and>
   document store_env (cmdline ''Get,Put'' ''encoding/json'') =
     Some (buf (header (cmdline ''Get,Put'' ''encoding/json'') \<lparr>buf = [], pkg = store_pkg\<rparr>) @
           importLine ''encoding/json'' @
           handlerWrap asciiToUpper \<lparr>Func = ''Get'', EncodingPkg = ''json'', T = ''Z''\<rparr> @
           handlerWrap asciiToUpper \<lparr>Func = ''Put'', EncodingPkg = ''json'', T = ''Z''\<rparr>)"
  by (simp add: eval_defs)

text \<open>
  C6. The claim: a requested function declared with a number of parameters other than one
  gets a diagnostic and no handler. Requested alone, \<open>Import\<close> (four parameters) gets the
  diagnostic and no handler. Requested after \<open>PutJob\<close>, it gets the diagnostic and also a
  handler, built for the type \<open>job\<close> that the request of \<open>PutJob\<close> left in the file.
\<close>

theorem arity_mismatch_after_match_builds_handler:
  "document jober_env (cmdline ''Import'' ''encoding/json'') =
     Some (buf (header (cmdline ''Import'' ''encoding/json'') \<lparr>buf = [], pkg = jober_pkg\<rparr>) @
           importLine ''encoding/json'') \<and>
   events (main jober_env (cmdline ''Import'' ''encoding/json'')) =
     [LogPrintf ''Import should take only one parameter, found 4 instead'',
      FmtPrintf ''Func not found: Import''] \<and>
   document jober_env (cmdline ''PutJob,Import'' ''encoding/json'') =
     Some (buf (header (cmdline ''PutJob,Import'' ''encoding/json'') \<lparr>buf = [], pkg = jober_pkg\<rparr>) @
           importLine ''encoding/json'' @
           handlerWrap asciiToUpper \<lparr>Func = ''PutJob'', EncodingPkg = ''json'', T = ''job''\<rparr> @
           handlerWrap asciiToUpper \<lparr>Func = ''Import'', EncodingPkg = ''json'', T = ''job''\<rparr>) \<and>
   events (main jober_env (cmdline ''PutJob,Import'' ''encoding/json'')) =
     [LogPrintf ''Import should take only one parameter, found 4 instead'']"
  by (simp add: eval_defs string_of_nat.simps)

subsection \<open>Formatting\<close>

text \<open>
  C8. When \<open>format.Source\<close> rejects the buffer, \<open>format\<close> logs its two warnings and returns
  the buffer as it is; the run writes that buffer, every handler in it unchanged, and ends
  with exit code 0 when the file can be written.
\<close>

theorem format_failure_not_fatal:
  assumes "funcNames fl \<noteq> []" and "encodingPkgNames fl \<noteq> []"
    and "load e (mainArgs fl) = Some (d, p)"
    and "emit e fl p = Some (g, out)"
    and "Source e (buf g) = Inl err"
    and "WriteFile e (outputName e fl d) (buf g)"
  shows "format e g =
           (buf g,
            [LogPrintf (''warning: internal error: invalid Go generated: '' @ err),
             LogPrintf ''warning: compile the package to analyze the error'']) \<and>
         main e fl =
           \<lparr>exit_code = 0,
            events = out @
              [LogPrintf (''warning: internal error: invalid Go generated: '' @ err),
               LogPrintf ''warning: compile the package to analyze the error''],
            written = Some (outputName e fl d, buf g)\<rparr>"
  using assms by (simp add: main_def format_def)

theorem format_failure_not_fatal_witness:
  "main (jober_env\<lparr>Source := (\<lambda>_. Inl ''syntax error'')\<rparr>) (cmdline ''PutJob'' ''encoding/json'') =
     \<lparr>exit_code = 0,
      events =
        [LogPrintf ''warning: internal error: invalid Go generated: syntax error'',
         LogPrintf ''warning: compile the package to analyze the error''],
      written =
        Some (''generated_handlers.go'',
              buf (header (cmdline ''PutJob'' ''encoding/json'') \<lparr>buf = [], pkg = jober_pkg\<rparr>) @
              importLine ''encoding/json'' @
              handlerWrap asciiToUpper \<lparr>Func = ''PutJob'', EncodingPkg = ''json'', T = ''job''\<rparr>)\<rparr>"
proof -
  let ?e = "jober_env\<lparr>Source := (\<lambda>_. Inl ''syntax error'')\<rparr>"
  let ?fl = "cmdline ''PutJob'' ''encoding/json''"
  let ?g = "\<lparr>buf = buf (header ?fl \<lparr>buf = [], pkg = jober_pkg\<rparr>) @ importLine ''encoding/json'' @
                  handlerWrap asciiToUpper \<lparr>Func = ''PutJob'', EncodingPkg = ''json'', T = ''job''\<rparr>,
            pkg = jober_pkg\<lparr>files :=
              [(newFile (''jober'', jober_go))\<lparr>funcName := ''PutJob'', paramfullname := ''job'', found := True\<rparr>]\<rparr>\<rparr>"
  have l: "load ?e (mainArgs ?fl) = Some (''.'', jober_pkg)"
    by (simp add: eval_defs)
  have em: "emit ?e ?fl jober_pkg = Some (?g, [])"
    by (simp add: eval_defs)
  from format_failure_not_fatal [of ?fl ?e "''.''" jober_pkg ?g "[]" "''syntax error''"] l em
  show ?thesis
    by (simp add: cmdline_def jober_env_def outputName_def)
qed

subsection \<open>Parameters that share a type\<close>

text \<open>
  C10. The arity check counts the fields of the parameter list. A declaration
  \<open>func F(a, b X)\<close> has one field: \<open>genDecl\<close> logs nothing and records the type \<open>X\<close>, and
  \<open>generate\<close> appends a handler for \<open>F\<close>: the function \<open>F\<close>, \<open>Handler\<close> and the upper-cased
  package name, whose body declares \<^verbatim>\<open>resp, s := F(x)\<close>, a call of \<open>F\<close> with the one argument
  \<open>x\<close>. The handler is built for \<open>X\<close> when this is the last declaration of \<open>F\<close> in its file
  and the files after it neither declare \<open>F\<close> nor carry a flag.
\<close>

theorem grouped_parameters_pass:
  assumes "files (pkg g) = fs1 @ f # fs2"
    and "astFile f = Some (ds1 @ FuncDecl F [Field [a, b] (Ident X)] # ds2)"
  shows "genDecl (FuncDecl F [Field [a, b] (Ident X)]) (f\<lparr>funcName := F\<rparr>) =
           (False, f\<lparr>funcName := F, paramfullname := X, found := True\<rparr>, []) \<and>
         (\<exists>g' l T0.
            generate e F enc (g, out) = (g', out @ l) \<and>
            buf g' =
              buf g @
              showFunc
                \<lparr>fname = F @ ''Handler'' @ strings_ToUpper e enc,
                 fbody =
                   [Define [''x''] (CompositeLit T0),
                    Define [''err''] (DecodeCall enc ''x''),
                    IfNotNil ''err'' [WriteHeaderCall (Selector ''http'' ''StatusBadRequest''), Return],
                    Define [''resp'', ''s''] (FuncCall F [''x'']),
                    WriteHeaderCall (Var ''s''),
                    EncodeCall enc ''resp'']\<rparr> \<and>
            (\<not> list_ex (declares F) ds2 \<and> list_all (\<lambda>f. \<not> found f) fs2 \<and>
             \<not> list_ex (declaredIn F) fs2 \<longrightarrow> T0 = X)) \<and>
         showStmt 1 (Define [''resp'', ''s''] (FuncCall F [''x''])) =
           tab @ ''resp, s := '' @ F @ ''(x)\<newline>''"
proof -
  let ?d = "FuncDecl F [Field [a, b] (Ident X)]"
  obtain fs' fnd pfn l where
    s: "scanFiles F (files (pkg g)) (False, []) = (fs', (fnd, pfn), l)"
    by (cases "scanFiles F (files (pkg g)) (False, [])") auto
  have "f \<in> set (files (pkg g))" and "?d \<in> set (ds1 @ ?d # ds2)"
    using assms(1) by simp_all
  from scanFiles_found [OF this(1) assms(2) this(2) s] have fnd .
  with s have gen: "generate e F enc (g, out) =
      (build e F enc pfn (g\<lparr>pkg := (pkg g)\<lparr>files := fs'\<rparr>\<rparr>), out @ l)"
    by (simp add: generate_def)
  have last: "pfn = X"
    if "\<not> list_ex (declares F) ds2" "list_all (\<lambda>f. \<not> found f) fs2" "\<not> list_ex (declaredIn F) fs2"
  proof -
    from scanFiles_last_match [OF assms(2) that, of fs1 "(False, [])"] assms(1) s
    show ?thesis by auto
  qed
  let ?fn = "\<lambda>T0. \<lparr>fname = F @ ''Handler'' @ strings_ToUpper e enc,
                 fbody =
                   [Define [''x''] (CompositeLit T0),
                    Define [''err''] (DecodeCall enc ''x''),
                    IfNotNil ''err'' [WriteHeaderCall (Selector ''http'' ''StatusBadRequest''), Return],
                    Define [''resp'', ''s''] (FuncCall F [''x'']),
                    WriteHeaderCall (Var ''s''),
                    EncodeCall enc ''resp'']\<rparr>"
  have "generate e F enc (g, out) = (build e F enc pfn (g\<lparr>pkg := (pkg g)\<lparr>files := fs'\<rparr>\<rparr>), out @ l) \<and>
        buf (build e F enc pfn (g\<lparr>pkg := (pkg g)\<lparr>files := fs'\<rparr>\<rparr>)) = buf g @ showFunc (?fn pfn) \<and>
        (\<not> list_ex (declares F) ds2 \<and> list_all (\<lambda>f. \<not> found f) fs2 \<and>
         \<not> list_ex (declaredIn F) fs2 \<longrightarrow> pfn = X)"
    using gen last by (simp add: build_showFunc handlerFunc_def)
  then have "\<exists>g' l T0.
            generate e F enc (g, out) = (g', out @ l) \<and>
            buf g' = buf g @ showFunc (?fn T0) \<and>
            (\<not> list_ex (declares F) ds2 \<and> list_all (\<lambda>f. \<not> found f) fs2 \<and>
             \<not> list_ex (declaredIn F) fs2 \<longrightarrow> T0 = X)"
    by blast
  moreover have "showStmt 1 (Define [''resp'', ''s''] (FuncCall F [''x''])) =
           tab @ ''resp, s := '' @ F @ ''(x)\<newline>''"
    by (simp add: showExpr_def indent_def)
  ultimately show ?thesis by (simp add: genDecl_Ident)
qed

theorem grouped_parameters_pass_witness:
  "genDecl (FuncDecl ''Merge'' [Field [''a'', ''b''] (Ident ''X'')])
     ((newFile (''jober'', jober_go))\<lparr>funcName := ''Merge''\<rparr>) =
     (False,
      (newFile (''jober'', jober_go))\<lparr>funcName := ''Merge'', paramfullname := ''X'', found := True\<rparr>,
      []) \<and>
   (\<exists>g' l. generate jober_env ''Merge'' ''json'' (\<lparr>buf = [], pkg = jober_pkg\<rparr>, []) = (g', l) \<and>
            buf g' =
              showFunc
                \<lparr>fname = ''MergeHandlerJSON'',
                 fbody =
                   [Define [''x''] (CompositeLit ''X''),
                    Define [''err''] (DecodeCall ''json'' ''x''),
                    IfNotNil ''err'' [WriteHeaderCall (Selector ''http'' ''StatusBadRequest''), Return],
                    Define [''resp'', ''s''] (FuncCall ''Merge'' [''x'']),
                    WriteHeaderCall (Var ''s''),
                    EncodeCall ''json'' ''resp'']\<rparr>)"
proof -
  let ?ds1 = "[GenDecl,
          FuncDecl ''PutJob'' [Field [''j''] (Ident ''job'')],
          FuncDecl ''Import''
            [Field [''a''] (Ident ''A''), Field [''b''] (Ident ''B''), Field [''c''] (Ident ''C''),
             Field [''d''] (SelectorExpr ''z'' ''D'')]]"
  have 1: "files (pkg \<lparr>buf = [], pkg = jober_pkg\<rparr>) = [] @ newFile (''jober'', jober_go) # []"
    by (simp add: jober_pkg_def)
  have 2: "astFile (newFile (''jober'', jober_go)) =
             Some (?ds1 @ FuncDecl ''Merge'' [Field [''a'', ''b''] (Ident ''X'')] # [])"
    by (simp add: newFile_def jober_go_def)
  have up: "strings_ToUpper jober_env ''json'' = ''JSON''"
    by (simp add: jober_env_def asciiToUpper_def upper_char_def)
  from grouped_parameters_pass [OF 1 2, of jober_env "''json''" "[]"] up show ?thesis
    by auto
qed

end
